theory Spec2Isabelle
  imports Main "HOL-Library.Multiset" "HOL-Library.List_Lexorder" "HOL-Library.Char_ord"
begin

section \<open>Request schema (model\_schema.py)\<close>

text \<open>
  The pydantic models become records. Python \<open>str\<close> is \<open>string\<close>, Python \<open>int\<close>
  is \<open>int\<close>. The fields \<open>id\<close> and \<open>type\<close>, which several models share, carry the
  model's name as a prefix; \<open>Name\<close> and \<open>Id\<close> of DayItem and TimeItem likewise.
\<close>

record group =
  group_id :: string
  instructorId :: string
  courseId :: string
  code :: string
  sessions :: int
  instructor :: string
  course :: string
  group_type :: int

record slot_item =
  dayId :: string
  dayName :: string
  timeId :: string
  timeName :: string

record availability_item =
  teacher :: string
  teacherId :: string
  slots :: "slot_item list"
  maxHours :: int

record day_item =
  day_Name :: string
  day_Id :: string

record time_item =
  time_Name :: string
  time_Id :: string

record schedule_request =
  groups :: "group list"
  availability :: "availability_item list"
  days :: "day_item list"
  time_intervals :: "time_item list"
  max_courses_per_slot :: int

record scheduled_group =
  sg_id :: string
  sg_code :: string
  slot :: slot_item
  students_count :: int
  sg_type :: int

record room =
  room_id :: string
  course_type :: int
  capacity :: int

record distribute_groups_request =
  scheduled_groups :: "scheduled_group list"
  rooms :: "room list"

section \<open>Python dictionaries\<close>

text \<open>
  A dict comprehension \<open>{k: v for ...}\<close> that is only read by key: a later pair with
  the same key overwrites an earlier one.
\<close>

definition py_dict :: "('k \<times> 'v) list \<Rightarrow> ('k \<rightharpoonup> 'v)" where
  "py_dict kvs = foldl (\<lambda>m kv. m(fst kv \<mapsto> snd kv)) Map.empty kvs"

text \<open>
  A dict that is iterated: an association list in insertion order. Writing an existing key
  keeps its position, as in Python.
\<close>

fun dict_get :: "('k \<times> 'v) list \<Rightarrow> 'k \<Rightarrow> 'v \<Rightarrow> 'v" where
  "dict_get [] k dflt = dflt"
| "dict_get ((k', v') # d) k dflt = (if k' = k then v' else dict_get d k dflt)"

fun dict_set :: "('k \<times> 'v) list \<Rightarrow> 'k \<Rightarrow> 'v \<Rightarrow> ('k \<times> 'v) list" where
  "dict_set [] k v = [(k, v)]"
| "dict_set ((k', v') # d) k v = (if k' = k then (k', v) # d else (k', v') # dict_set d k v)"

text \<open>\<open>defaultdict(list)\<close> with \<open>d[k].append(v)\<close>.\<close>

fun dict_append :: "('k \<times> 'v list) list \<Rightarrow> 'k \<Rightarrow> 'v \<Rightarrow> ('k \<times> 'v list) list" where
  "dict_append [] k v = [(k, [v])]"
| "dict_append ((k', vs) # d) k v =
     (if k' = k then (k', vs @ [v]) # d else (k', vs) # dict_append d k v)"

section \<open>The CP-SAT interface (ortools, an external collaborator)\<close>

text \<open>
  A model is the Boolean variables created with \<open>NewBoolVar\<close> and the linear constraints
  posted with \<open>Add\<close>. A variable is identified by the key under which the program stores it
  in its dict (\<open>x\<close> or \<open>y\<close>): every constraint and every \<open>solver.Value\<close> reaches a variable
  through that dict, so a variable whose key was overwritten is never referenced again.
  A sum of variables is a list of (coefficient, variable) terms.
\<close>

datatype 'v cp_constraint =
  SumEq "(int \<times> 'v) list" int
| SumLe "(int \<times> 'v) list" int

record 'v cp_model =
  bool_vars :: "'v list"
  constraints :: "'v cp_constraint list"

datatype cp_status = UNKNOWN | MODEL_INVALID | FEASIBLE | INFEASIBLE | OPTIMAL

definition lin_sum :: "('v \<Rightarrow> int) \<Rightarrow> (int \<times> 'v) list \<Rightarrow> int" where
  "lin_sum val ts = sum_list (map (\<lambda>cv. fst cv * val (snd cv)) ts)"

fun holds :: "('v \<Rightarrow> int) \<Rightarrow> 'v cp_constraint \<Rightarrow> bool" where
  "holds val (SumEq ts b) = (lin_sum val ts = b)"
| "holds val (SumLe ts b) = (lin_sum val ts \<le> b)"

definition satisfies :: "'v cp_model \<Rightarrow> ('v \<Rightarrow> int) \<Rightarrow> bool" where
  "satisfies m val =
     (list_all (\<lambda>v. val v = 0 \<or> val v = 1) (bool_vars m) \<and> list_all (holds val) (constraints m))"

text \<open>
  \<open>CpSolver.Solve\<close> followed by \<open>solver.Value\<close>: a status and the value of each variable.
  The program relies on one property of the solver only: with status OPTIMAL or FEASIBLE
  the values satisfy the model.
\<close>

type_synonym 'v cp_solver = "'v cp_model \<Rightarrow> cp_status \<times> ('v \<Rightarrow> int)"

definition has_solution :: "cp_status \<Rightarrow> bool" where
  "has_solution st = (st = OPTIMAL \<or> st = FEASIBLE)"

definition solver_sound :: "'v cp_solver \<Rightarrow> bool" where
  "solver_sound solve = (\<forall>m. has_solution (fst (solve m)) \<longrightarrow> satisfies m (snd (solve m)))"

text \<open>A solver that proposes one fixed assignment and checks it: sound by construction.\<close>

definition check_solver :: "('v \<Rightarrow> int) \<Rightarrow> 'v cp_solver" where
  "check_solver val m = (if satisfies m val then (OPTIMAL, val) else (INFEASIBLE, val))"

section \<open>create\_schedule (main.py)\<close>

subsection \<open>Lookup maps\<close>

definition day_id_to_name :: "schedule_request \<Rightarrow> (string \<rightharpoonup> string)" where
  "day_id_to_name req = py_dict (map (\<lambda>d. (day_Id d, day_Name d)) (days req))"

definition time_id_to_name :: "schedule_request \<Rightarrow> (string \<rightharpoonup> string)" where
  "time_id_to_name req = py_dict (map (\<lambda>t. (time_Id t, time_Name t)) (time_intervals req))"

definition time_slots :: "schedule_request \<Rightarrow> (string \<times> string) list" where
  "time_slots req =
     concat (map (\<lambda>d. map (\<lambda>t. (day_Id d, time_Id t)) (time_intervals req)) (days req))"

definition availability_dict :: "schedule_request \<Rightarrow> (string \<rightharpoonup> (string \<times> string) list)" where
  "availability_dict req =
     py_dict (map (\<lambda>a. (teacher a, map (\<lambda>s. (dayId s, timeId s)) (slots a))) (availability req))"

definition max_hours_dict :: "schedule_request \<Rightarrow> (string \<rightharpoonup> int)" where
  "max_hours_dict req = py_dict (map (\<lambda>a. (teacher a, maxHours a)) (availability req))"

subsection \<open>Request-level check and the validation loop\<close>

text \<open>
  \<open>sorted({g.instructor for g in groups} - set(availability_dict.keys()))\<close>: the
  distinct instructor names that are no key of \<open>availability_dict\<close>, in ascending order.
\<close>

definition missing_teachers :: "schedule_request \<Rightarrow> string list" where
  "missing_teachers req =
     sort (remdups (filter (\<lambda>n. availability_dict req n = None) (map instructor (groups req))))"

text \<open>
  Each message of the list \<open>errors\<close> is one of four f-strings; a message is represented by
  its template and the values the template interpolates, in their order.
\<close>

datatype violation =
  MissingAvailability string
| InsufficientSlots string string int nat
| ZeroHourBudgetViolation string string int
| HourBudgetExceeded string string int int

datatype failure =
  MissingInstructors "string list"
| ValidationErrors "violation list"
| NoFeasibleSchedule
| NoFeasibleRoomAssignment string string
| UncaughtStopIteration

definition sessions_per_instructor :: "schedule_request \<Rightarrow> (string \<times> int) list" where
  "sessions_per_instructor req =
     foldl (\<lambda>d g. dict_set d (instructorId g) (dict_get d (instructorId g) 0 + sessions g))
       [] (groups req)"

definition availability_map :: "schedule_request \<Rightarrow> (string \<rightharpoonup> availability_item)" where
  "availability_map req = py_dict (map (\<lambda>a. (teacherId a, a)) (availability req))"

text \<open>One pass of the loop body over \<open>(instructor_id, total_sessions)\<close>.\<close>

fun check_instructor ::
  "(string \<rightharpoonup> availability_item) \<Rightarrow> violation list \<Rightarrow> string \<times> int \<Rightarrow> violation list"
where
  "check_instructor amap errors (instructor_id, total_sessions) =
     (case amap instructor_id of
        None \<Rightarrow> errors @ [MissingAvailability instructor_id]
      | Some a \<Rightarrow>
          (let errors1 =
                 (if int (length (slots a)) < total_sessions
                  then errors @ [InsufficientSlots (teacher a) instructor_id total_sessions
                                   (length (slots a))]
                  else errors);
               errors2 =
                 (if maxHours a = 0 \<and> total_sessions > 0
                  then errors1 @ [ZeroHourBudgetViolation (teacher a) instructor_id total_sessions]
                  else errors1);
               errors3 =
                 (if maxHours a > 0 \<and> total_sessions > maxHours a
                  then errors2 @ [HourBudgetExceeded (teacher a) instructor_id total_sessions
                                    (maxHours a)]
                  else errors2)
           in errors3))"

definition validation_errors :: "schedule_request \<Rightarrow> violation list" where
  "validation_errors req =
     foldl (check_instructor (availability_map req)) [] (sessions_per_instructor req)"

subsection \<open>The timetable model\<close>

text \<open>The key of \<open>x\<close>: (groupId, session index, dayId, timeId).\<close>

type_synonym tt_var = "string \<times> nat \<times> string \<times> string"

text \<open>\<open>range(g.sessions)\<close>; empty when \<open>sessions\<close> is zero or negative.\<close>

definition session_range :: "group \<Rightarrow> nat list" where
  "session_range g = [0 ..< nat (sessions g)]"

definition x_key :: "group \<Rightarrow> nat \<Rightarrow> string \<times> string \<Rightarrow> tt_var" where
  "x_key g s_idx dt = (group_id g, s_idx, fst dt, snd dt)"

definition tt_variables :: "schedule_request \<Rightarrow> tt_var list" where
  "tt_variables req =
     concat (map (\<lambda>g. concat (map (\<lambda>s_idx. map (x_key g s_idx) (time_slots req))
       (session_range g))) (groups req))"

text \<open>
  The terms \<open>x[(g.id, s_idx, d, t)] for g in gs for s_idx in range(g.sessions)\<close> at one
  slot.
\<close>

definition slot_terms :: "group list \<Rightarrow> string \<times> string \<Rightarrow> (int \<times> tt_var) list" where
  "slot_terms gs dt = concat (map (\<lambda>g. map (\<lambda>s_idx. (1, x_key g s_idx dt)) (session_range g)) gs)"

text \<open>1) Each session must be scheduled exactly once.\<close>

definition exactly_once :: "schedule_request \<Rightarrow> group \<Rightarrow> nat \<Rightarrow> tt_var cp_constraint" where
  "exactly_once req g s_idx = SumEq (map (\<lambda>dt. (1, x_key g s_idx dt)) (time_slots req)) 1"

definition constraints1 :: "schedule_request \<Rightarrow> tt_var cp_constraint list" where
  "constraints1 req =
     concat (map (\<lambda>g. map (exactly_once req g) (session_range g)) (groups req))"

text \<open>
  2) Instructor cannot teach two courses at the same time. The loop runs over a Python
  set, whose order is not fixed; the order of the constraints has no bearing on which
  assignments satisfy them, and first-occurrence order is taken.
\<close>

definition instructors :: "schedule_request \<Rightarrow> string list" where
  "instructors req = remdups (map instructor (groups req))"

definition constraints2 :: "schedule_request \<Rightarrow> tt_var cp_constraint list" where
  "constraints2 req =
     concat (map (\<lambda>inst. map (\<lambda>dt.
         SumLe (slot_terms (filter (\<lambda>g. instructor g = inst) (groups req)) dt) 1)
       (time_slots req)) (instructors req))"

text \<open>3) Instructor availability constraint.\<close>

definition allowed_slots :: "schedule_request \<Rightarrow> string \<Rightarrow> (string \<times> string) list" where
  "allowed_slots req inst = (case availability_dict req inst of None \<Rightarrow> [] | Some l \<Rightarrow> l)"

definition constraints3 :: "schedule_request \<Rightarrow> tt_var cp_constraint list" where
  "constraints3 req =
     concat (map (\<lambda>g. concat (map (\<lambda>s_idx.
         map (\<lambda>dt. SumEq [(1, x_key g s_idx dt)] 0)
           (filter (\<lambda>dt. dt \<notin> set (allowed_slots req (instructor g))) (time_slots req)))
       (session_range g))) (groups req))"

text \<open>4) No two groups for the same course can overlap.\<close>

definition constraints4 :: "schedule_request \<Rightarrow> tt_var cp_constraint list" where
  "constraints4 req =
     concat (map (\<lambda>cid. map (\<lambda>dt.
         SumLe (slot_terms (filter (\<lambda>g. courseId g = cid) (groups req)) dt) 1)
       (time_slots req)) (remdups (map courseId (groups req))))"

text \<open>5) Maximum number of simultaneous courses per slot.\<close>

definition constraints5 :: "schedule_request \<Rightarrow> tt_var cp_constraint list" where
  "constraints5 req =
     map (\<lambda>dt. SumLe (slot_terms (groups req) dt) (max_courses_per_slot req)) (time_slots req)"

text \<open>6) Maximum hours per teacher: 2 per session of a group of type 0, else 1.\<close>

definition hour_weight :: "int \<Rightarrow> int" where
  "hour_weight ty = (if ty = 0 then 2 else 1)"

definition hour_terms :: "schedule_request \<Rightarrow> string \<Rightarrow> (int \<times> tt_var) list" where
  "hour_terms req inst =
     concat (map (\<lambda>g. concat (map (\<lambda>s_idx.
         map (\<lambda>dt. (hour_weight (group_type g), x_key g s_idx dt)) (time_slots req))
       (session_range g))) (filter (\<lambda>g. instructor g = inst) (groups req)))"

definition constraints6 :: "schedule_request \<Rightarrow> tt_var cp_constraint list" where
  "constraints6 req =
     concat (map (\<lambda>inst.
         (case max_hours_dict req inst of
            None \<Rightarrow> []
          | Some max_hours \<Rightarrow> [SumLe (hour_terms req inst) max_hours]))
       (instructors req))"

definition timetable_model :: "schedule_request \<Rightarrow> tt_var cp_model" where
  "timetable_model req =
     \<lparr> bool_vars = tt_variables req,
       constraints = constraints1 req @ constraints2 req @ constraints3 req @
                     constraints4 req @ constraints5 req @ constraints6 req \<rparr>"

subsection \<open>Collecting the solution\<close>

text \<open>
  A schedule entry is the dict literal of the source: its keys in order, each with its
  value.
\<close>

datatype field_value = StrV string | IntV int | SlotV slot_item

type_synonym entry = "(string \<times> field_value) list"

definition name_or_id :: "(string \<rightharpoonup> string) \<Rightarrow> string \<Rightarrow> string" where
  "name_or_id m k = (case m k of None \<Rightarrow> k | Some n \<Rightarrow> n)"

definition schedule_entry :: "schedule_request \<Rightarrow> group \<Rightarrow> nat \<Rightarrow> string \<times> string \<Rightarrow> entry" where
  "schedule_entry req g s_idx dt =
     [(''GroupId'', StrV (group_id g)),
      (''CourseCode'', StrV (code g)),
      (''CourseId'', StrV (courseId g)),
      (''CourseFamily'', StrV (course g)),
      (''Session'', IntV (int s_idx + 1)),
      (''Instructor'', StrV (instructor g)),
      (''InstructorId'', StrV (instructorId g)),
      (''DayId'', StrV (fst dt)),
      (''Day'', StrV (name_or_id (day_id_to_name req) (fst dt))),
      (''TimeId'', StrV (snd dt)),
      (''Time'', StrV (name_or_id (time_id_to_name req) (snd dt))),
      (''Type'', IntV (group_type g))]"

definition session_entries ::
  "schedule_request \<Rightarrow> (tt_var \<Rightarrow> int) \<Rightarrow> group \<Rightarrow> nat \<Rightarrow> entry list" where
  "session_entries req val g s_idx =
     map (schedule_entry req g s_idx)
       (filter (\<lambda>dt. val (x_key g s_idx dt) = 1) (time_slots req))"

definition collect_schedule :: "schedule_request \<Rightarrow> (tt_var \<Rightarrow> int) \<Rightarrow> entry list" where
  "collect_schedule req val =
     concat (map (\<lambda>g. concat (map (session_entries req val g) (session_range g))) (groups req))"

subsection \<open>The endpoint\<close>

text \<open>
  The three outcomes that the source raises as HTTPException are values of \<open>failure\<close>.
  The bounds \<open>max_courses_per_slot\<close> and \<open>maxHours\<close> reach the solver library as
  they are; the library takes 64-bit integers and raises at \<open>Add\<close>, before anything is
  solved, for a bound outside that range. The model is for requests whose bounds lie within
  it: outside, the program returns no schedule where the model may return one, so that a
  property of every schedule the model returns holds of every schedule the program returns.
\<close>

definition create_schedule :: "tt_var cp_solver \<Rightarrow> schedule_request \<Rightarrow> failure + entry list" where
  "create_schedule solve req =
     (if missing_teachers req \<noteq> [] then Inl (MissingInstructors (missing_teachers req))
      else if validation_errors req \<noteq> [] then Inl (ValidationErrors (validation_errors req))
      else (case solve (timetable_model req) of (status, val) \<Rightarrow>
              if \<not> has_solution status then Inl NoFeasibleSchedule
              else Inr (collect_schedule req val)))"

section \<open>distribute\_groups (main.py)\<close>

text \<open>The key of \<open>slot_to_groups\<close>: \<open>(g.slot.dayId, g.slot.timeId)\<close>.\<close>

definition slot_key :: "scheduled_group \<Rightarrow> string \<times> string" where
  "slot_key g = (dayId (slot g), timeId (slot g))"

definition slot_to_groups ::
  "scheduled_group list \<Rightarrow> ((string \<times> string) \<times> scheduled_group list) list" where
  "slot_to_groups sgs = foldl (\<lambda>d g. dict_append d (slot_key g) g) [] sgs"

subsection \<open>The room model of one slot\<close>

text \<open>The key of \<open>y\<close>: (group id, room id).\<close>

type_synonym room_var = "string \<times> string"

definition y_key :: "scheduled_group \<Rightarrow> room \<Rightarrow> room_var" where
  "y_key g r = (sg_id g, room_id r)"

definition compatible :: "scheduled_group \<Rightarrow> room \<Rightarrow> bool" where
  "compatible g r = (capacity r \<ge> students_count g \<and> course_type r = sg_type g)"

text \<open>The keys of \<open>y\<close> after the loop that creates the variables.\<close>

definition y_keys :: "scheduled_group list \<Rightarrow> room list \<Rightarrow> room_var list" where
  "y_keys groups_in_slot rs =
     concat (map (\<lambda>g. map (y_key g) (filter (compatible g) rs)) groups_in_slot)"

text \<open>Constraint 1: each group assigned to exactly one room.\<close>

definition one_room :: "room_var list \<Rightarrow> room list \<Rightarrow> scheduled_group \<Rightarrow> room_var cp_constraint" where
  "one_room y rs g = SumEq (map (\<lambda>r. (1, y_key g r)) (filter (\<lambda>r. y_key g r \<in> set y) rs)) 1"

text \<open>Constraint 2: each room holds at most one group at a time.\<close>

definition one_group ::
  "room_var list \<Rightarrow> scheduled_group list \<Rightarrow> room \<Rightarrow> room_var cp_constraint" where
  "one_group y groups_in_slot r =
     SumLe (map (\<lambda>g. (1, y_key g r)) (filter (\<lambda>g. y_key g r \<in> set y) groups_in_slot)) 1"

definition room_model :: "scheduled_group list \<Rightarrow> room list \<Rightarrow> room_var cp_model" where
  "room_model groups_in_slot rs =
     (let y = y_keys groups_in_slot rs
      in \<lparr> bool_vars = y,
           constraints = map (one_room y rs) groups_in_slot @ map (one_group y groups_in_slot) rs \<rparr>)"

subsection \<open>Collecting the assignments\<close>

text \<open>
  \<open>next(r.id for r in rooms if (g.id, r.id) in y and solver.Value(y[(g.id, r.id)]) == 1)\<close>;
  \<open>None\<close> stands for the StopIteration that \<open>next\<close> raises on an exhausted generator.
\<close>

definition assigned_room ::
  "room_var list \<Rightarrow> room list \<Rightarrow> (room_var \<Rightarrow> int) \<Rightarrow> scheduled_group \<Rightarrow> string option" where
  "assigned_room y rs val g =
     map_option room_id (find (\<lambda>r. y_key g r \<in> set y \<and> val (y_key g r) = 1) rs)"

definition distributed_entry :: "scheduled_group \<Rightarrow> string \<Rightarrow> entry" where
  "distributed_entry g rid =
     [(''id'', StrV (sg_id g)),
      (''slot'', SlotV (slot g)),
      (''number_size'', IntV (students_count g)),
      (''type'', IntV (sg_type g)),
      (''roomId'', StrV rid)]"

fun collect_assignments ::
  "room_var list \<Rightarrow> room list \<Rightarrow> (room_var \<Rightarrow> int) \<Rightarrow> entry list \<Rightarrow> scheduled_group list
     \<Rightarrow> failure + entry list"
where
  "collect_assignments y rs val final_distribution [] = Inr final_distribution"
| "collect_assignments y rs val final_distribution (g # gs) =
     (case assigned_room y rs val g of
        None \<Rightarrow> Inl UncaughtStopIteration
      | Some rid \<Rightarrow>
          collect_assignments y rs val (final_distribution @ [distributed_entry g rid]) gs)"

subsection \<open>The endpoint\<close>

text \<open>The loop over \<open>slot_to_groups.items()\<close>: one model and one solve per slot.\<close>

fun distribute_slots ::
  "room_var cp_solver \<Rightarrow> room list \<Rightarrow> entry list
     \<Rightarrow> ((string \<times> string) \<times> scheduled_group list) list \<Rightarrow> failure + entry list"
where
  "distribute_slots solve rs final_distribution [] = Inr final_distribution"
| "distribute_slots solve rs final_distribution ((dt, groups_in_slot) # rest) =
     (case solve (room_model groups_in_slot rs) of (status, val) \<Rightarrow>
        if \<not> has_solution status
        then Inl (NoFeasibleRoomAssignment (fst dt) (snd dt))
        else (case collect_assignments (y_keys groups_in_slot rs) rs val final_distribution
                     groups_in_slot of
                Inl e \<Rightarrow> Inl e
              | Inr final' \<Rightarrow> distribute_slots solve rs final' rest))"

definition distribute_groups ::
  "room_var cp_solver \<Rightarrow> distribute_groups_request \<Rightarrow> failure + entry list" where
  "distribute_groups solve req =
     distribute_slots solve (rooms req) [] (slot_to_groups (scheduled_groups req))"

section \<open>Notions used to state the properties\<close>

subsection \<open>Validation\<close>

text \<open>
  The unweighted session total of an instructor id, whether a list of messages holds a
  message of the HourBudgetExceeded template for an instructor id, and the agreement of
  names and ids between groups and availability records.
\<close>

definition total_sessions :: "group list \<Rightarrow> string \<Rightarrow> int" where
  "total_sessions gs i = sum_list (map sessions (filter (\<lambda>g. instructorId g = i) gs))"

fun hour_budget_violation_of :: "string \<Rightarrow> violation \<Rightarrow> bool" where
  "hour_budget_violation_of i (HourBudgetExceeded t j n m) = (j = i)"
| "hour_budget_violation_of i _ = False"

definition hour_budget_reported :: "violation list \<Rightarrow> string \<Rightarrow> bool" where
  "hour_budget_reported errors i = list_ex (hour_budget_violation_of i) errors"

definition ids_consistent :: "schedule_request \<Rightarrow> bool" where
  "ids_consistent req =
     (\<forall>g \<in> set (groups req). \<forall>a \<in> set (availability req).
        instructor g = teacher a \<longrightarrow> instructorId g = teacherId a)"

subsection \<open>Room distribution\<close>

text \<open>
  The room id that the extraction reads for a group of a slot, the (group, room id) pairs of
  a slot in output order, and a slot whose solve is neither OPTIMAL nor FEASIBLE.
\<close>

definition slot_rooms ::
  "room_var cp_solver \<Rightarrow> room list \<Rightarrow> scheduled_group list \<Rightarrow> scheduled_group \<Rightarrow> string option" where
  "slot_rooms solve rs gs = assigned_room (y_keys gs rs) rs (snd (solve (room_model gs rs)))"

definition slot_pairs ::
  "room_var cp_solver \<Rightarrow> room list \<Rightarrow> scheduled_group list \<Rightarrow> (scheduled_group \<times> string) list" where
  "slot_pairs solve rs gs = map (\<lambda>g. (g, the (slot_rooms solve rs gs g))) gs"

definition unsolved :: "room_var cp_solver \<Rightarrow> room list \<Rightarrow> (string \<times> string) \<times> scheduled_group list \<Rightarrow> bool" where
  "unsolved solve rs p = (\<not> has_solution (fst (solve (room_model (snd p) rs))))"

definition entry_of_pair :: "scheduled_group \<times> string \<Rightarrow> entry" where
  "entry_of_pair p = distributed_entry (fst p) (snd p)"

definition room_pairs ::
  "room_var cp_solver \<Rightarrow> distribute_groups_request \<Rightarrow> (scheduled_group \<times> string) list" where
  "room_pairs solve req =
     concat (map (\<lambda>p. slot_pairs solve (rooms req) (snd p)) (slot_to_groups (scheduled_groups req)))"

definition entry_room :: "entry \<Rightarrow> field_value option" where
  "entry_room e = map_of e ''roomId''"

fun slot_of_value :: "field_value option \<Rightarrow> (string \<times> string) option" where
  "slot_of_value (Some (SlotV s)) = Some (dayId s, timeId s)"
| "slot_of_value _ = None"

definition entry_slot :: "entry \<Rightarrow> (string \<times> string) option" where
  "entry_slot e = slot_of_value (map_of e ''slot'')"

fun constraint_vars :: "'v cp_constraint \<Rightarrow> 'v list" where
  "constraint_vars (SumEq ts b) = map snd ts"
| "constraint_vars (SumLe ts b) = map snd ts"

subsection \<open>Timetable\<close>

text \<open>
  The (GroupId, Session) columns of an entry, the hour cost of an entry (2 for Type 0,
  else 1), and the entries which the extraction emits for one group.
\<close>

definition entry_group_session :: "entry \<Rightarrow> field_value option \<times> field_value option" where
  "entry_group_session e = (map_of e ''GroupId'', map_of e ''Session'')"

definition group_session :: "group \<Rightarrow> nat \<Rightarrow> field_value option \<times> field_value option" where
  "group_session g s_idx = (Some (StrV (group_id g)), Some (IntV (int s_idx + 1)))"

definition hour_cost :: "entry \<Rightarrow> int" where
  "hour_cost e = (if map_of e ''Type'' = Some (IntV 0) then 2 else 1)"

definition group_entries :: "schedule_request \<Rightarrow> (tt_var \<Rightarrow> int) \<Rightarrow> group \<Rightarrow> entry list" where
  "group_entries req val g = concat (map (session_entries req val g) (session_range g))"

definition entry_instructor :: "entry \<Rightarrow> field_value option" where
  "entry_instructor e = map_of e ''Instructor''"

section \<open>Example requests\<close>

definition slot_mon_8 :: slot_item where
  "slot_mon_8 = \<lparr> dayId = ''D1'', dayName = ''Monday'', timeId = ''T1'', timeName = ''08:00'' \<rparr>"

definition group_ada :: group where
  "group_ada = \<lparr> group_id = ''G1'', instructorId = ''I1'', courseId = ''C1'', code = ''CS101'',
     sessions = 3, instructor = ''Ada'', course = ''CS'', group_type = 0 \<rparr>"

definition group_bob :: group where
  "group_bob = \<lparr> group_id = ''G2'', instructorId = ''I2'', courseId = ''C2'', code = ''MA201'',
     sessions = 1, instructor = ''Bob'', course = ''MA'', group_type = 1 \<rparr>"

definition overloaded_request :: schedule_request where
  "overloaded_request =
     \<lparr> groups = [group_ada, group_bob],
       availability =
         [\<lparr> teacher = ''Ada'', teacherId = ''I1'', slots = [slot_mon_8], maxHours = 2 \<rparr>,
          \<lparr> teacher = ''Bob'', teacherId = ''I2'', slots = [], maxHours = 0 \<rparr>],
       days = [\<lparr> day_Name = ''Monday'', day_Id = ''D1'' \<rparr>],
       time_intervals = [\<lparr> time_Name = ''08:00'', time_Id = ''T1'' \<rparr>],
       max_courses_per_slot = 2 \<rparr>"

definition unlisted_request :: schedule_request where
  "unlisted_request =
     \<lparr> groups = [group_ada, group_bob],
       availability =
         [\<lparr> teacher = ''Ada'', teacherId = ''I1'', slots = [], maxHours = 0 \<rparr>],
       days = [\<lparr> day_Name = ''Monday'', day_Id = ''D1'' \<rparr>],
       time_intervals = [\<lparr> time_Name = ''08:00'', time_Id = ''T1'' \<rparr>],
       max_courses_per_slot = 2 \<rparr>"

definition silent_solver :: "tt_var cp_solver" where
  "silent_solver m = (UNKNOWN, (\<lambda>v. 0))"

definition slot_tue_10 :: slot_item where
  "slot_tue_10 = \<lparr> dayId = ''D2'', dayName = ''Tuesday'', timeId = ''T2'', timeName = ''10:00'' \<rparr>"

definition sg_algebra :: scheduled_group where
  "sg_algebra = \<lparr> sg_id = ''G1'', sg_code = ''MA101'', slot = slot_mon_8,
     students_count = 30, sg_type = 0 \<rparr>"

definition sg_logic :: scheduled_group where
  "sg_logic = \<lparr> sg_id = ''G2'', sg_code = ''CS201'', slot = slot_mon_8,
     students_count = 20, sg_type = 0 \<rparr>"

definition sg_physics :: scheduled_group where
  "sg_physics = \<lparr> sg_id = ''G3'', sg_code = ''PH101'', slot = slot_tue_10,
     students_count = 35, sg_type = 0 \<rparr>"

definition sg_crowd :: scheduled_group where
  "sg_crowd = \<lparr> sg_id = ''G4'', sg_code = ''BI101'', slot = slot_tue_10,
     students_count = 100, sg_type = 0 \<rparr>"

definition campus_rooms :: "room list" where
  "campus_rooms =
     [\<lparr> room_id = ''R1'', course_type = 0, capacity = 40 \<rparr>,
      \<lparr> room_id = ''R2'', course_type = 0, capacity = 25 \<rparr>,
      \<lparr> room_id = ''R3'', course_type = 1, capacity = 50 \<rparr>]"

definition campus_request :: distribute_groups_request where
  "campus_request = \<lparr> scheduled_groups = [sg_algebra, sg_physics, sg_logic], rooms = campus_rooms \<rparr>"

definition crowded_request :: distribute_groups_request where
  "crowded_request = \<lparr> scheduled_groups = [sg_algebra, sg_crowd], rooms = campus_rooms \<rparr>"

definition single_request :: distribute_groups_request where
  "single_request = \<lparr> scheduled_groups = [sg_algebra], rooms = campus_rooms \<rparr>"

definition campus_val :: "room_var \<Rightarrow> int" where
  "campus_val k =
     (if k = (''G1'', ''R1'') \<or> k = (''G2'', ''R2'') \<or> k = (''G3'', ''R1'') then 1 else 0)"

definition slot_mon_10 :: slot_item where
  "slot_mon_10 = \<lparr> dayId = ''D1'', dayName = ''Monday'', timeId = ''T2'', timeName = ''10:00'' \<rparr>"

definition group_seminar :: group where
  "group_seminar = \<lparr> group_id = ''G1'', instructorId = ''I1'', courseId = ''C1'', code = ''CS101'',
     sessions = 2, instructor = ''Ada'', course = ''CS'', group_type = 0 \<rparr>"

definition weekly_request :: schedule_request where
  "weekly_request =
     \<lparr> groups = [group_seminar],
       availability =
         [\<lparr> teacher = ''Ada'', teacherId = ''I1'', slots = [slot_mon_8, slot_mon_10], maxHours = 4 \<rparr>],
       days = [\<lparr> day_Name = ''Monday'', day_Id = ''D1'' \<rparr>],
       time_intervals = [\<lparr> time_Name = ''08:00'', time_Id = ''T1'' \<rparr>,
                         \<lparr> time_Name = ''10:00'', time_Id = ''T2'' \<rparr>],
       max_courses_per_slot = 2 \<rparr>"

definition weekly_val :: "tt_var \<Rightarrow> int" where
  "weekly_val k =
     (if k = (''G1'', 0, ''D1'', ''T1'') \<or> k = (''G1'', 1, ''D1'', ''T2'') then 1 else 0)"

definition weekly_schedule :: "entry list" where
  "weekly_schedule =
     [[(''GroupId'', StrV ''G1''), (''CourseCode'', StrV ''CS101''), (''CourseId'', StrV ''C1''),
       (''CourseFamily'', StrV ''CS''), (''Session'', IntV 1), (''Instructor'', StrV ''Ada''),
       (''InstructorId'', StrV ''I1''), (''DayId'', StrV ''D1''), (''Day'', StrV ''Monday''),
       (''TimeId'', StrV ''T1''), (''Time'', StrV ''08:00''), (''Type'', IntV 0)],
      [(''GroupId'', StrV ''G1''), (''CourseCode'', StrV ''CS101''), (''CourseId'', StrV ''C1''),
       (''CourseFamily'', StrV ''CS''), (''Session'', IntV 2), (''Instructor'', StrV ''Ada''),
       (''InstructorId'', StrV ''I1''), (''DayId'', StrV ''D1''), (''Day'', StrV ''Monday''),
       (''TimeId'', StrV ''T2''), (''Time'', StrV ''10:00''), (''Type'', IntV 0)]]"

definition group_lecture :: group where
  "group_lecture = \<lparr> group_id = ''G1'', instructorId = ''I1'', courseId = ''C1'', code = ''CS101'',
     sessions = 1, instructor = ''Ada'', course = ''CS'', group_type = 0 \<rparr>"

definition group_lab :: group where
  "group_lab = \<lparr> group_id = ''G2'', instructorId = ''I1'', courseId = ''C1'', code = ''CS101L'',
     sessions = 1, instructor = ''Ada'', course = ''CS'', group_type = 1 \<rparr>"

definition mixed_request :: schedule_request where
  "mixed_request =
     \<lparr> groups = [group_lecture, group_lab],
       availability =
         [\<lparr> teacher = ''Ada'', teacherId = ''I1'', slots = [slot_mon_8, slot_mon_10], maxHours = 3 \<rparr>],
       days = [\<lparr> day_Name = ''Monday'', day_Id = ''D1'' \<rparr>],
       time_intervals = [\<lparr> time_Name = ''08:00'', time_Id = ''T1'' \<rparr>,
                         \<lparr> time_Name = ''10:00'', time_Id = ''T2'' \<rparr>],
       max_courses_per_slot = 1 \<rparr>"

definition mixed_val :: "tt_var \<Rightarrow> int" where
  "mixed_val k =
     (if k = (''G1'', 0, ''D1'', ''T1'') \<or> k = (''G2'', 0, ''D1'', ''T2'') then 1 else 0)"

definition mixed_schedule :: "entry list" where
  "mixed_schedule =
     [[(''GroupId'', StrV ''G1''), (''CourseCode'', StrV ''CS101''), (''CourseId'', StrV ''C1''),
       (''CourseFamily'', StrV ''CS''), (''Session'', IntV 1), (''Instructor'', StrV ''Ada''),
       (''InstructorId'', StrV ''I1''), (''DayId'', StrV ''D1''), (''Day'', StrV ''Monday''),
       (''TimeId'', StrV ''T1''), (''Time'', StrV ''08:00''), (''Type'', IntV 0)],
      [(''GroupId'', StrV ''G2''), (''CourseCode'', StrV ''CS101L''), (''CourseId'', StrV ''C1''),
       (''CourseFamily'', StrV ''CS''), (''Session'', IntV 1), (''Instructor'', StrV ''Ada''),
       (''InstructorId'', StrV ''I1''), (''DayId'', StrV ''D1''), (''Day'', StrV ''Monday''),
       (''TimeId'', StrV ''T2''), (''Time'', StrV ''10:00''), (''Type'', IntV 1)]]"

section \<open>Dictionaries and the session count\<close>

lemma py_dict_foldl:
  "foldl (\<lambda>m kv. m(fst kv \<mapsto> snd kv)) m kvs = m ++ map_of (rev kvs)"
  by (induction kvs arbitrary: m) (auto simp: map_add_upd_left fun_eq_iff map_add_def split: option.splits)

lemma py_dict_map_of: "py_dict kvs = map_of (rev kvs)"
  by (simp add: py_dict_def py_dict_foldl)

lemma dom_py_dict: "dom (py_dict kvs) = fst ` set kvs"
  by (simp add: py_dict_map_of dom_map_of_conv_image_fst)

lemma py_dict_Some_mem: "py_dict kvs k = Some v \<Longrightarrow> (k, v) \<in> set kvs"
  by (simp add: py_dict_map_of) (metis map_of_SomeD set_rev)

lemma py_dict_snoc: "py_dict (kvs @ [kv]) = (py_dict kvs)(fst kv \<mapsto> snd kv)"
  by (simp add: py_dict_def)

lemma py_dict_last:
  "filter (\<lambda>a. k a = key) xs \<noteq> [] \<Longrightarrow>
   py_dict (map (\<lambda>a. (k a, v a)) xs) key = Some (v (last (filter (\<lambda>a. k a = key) xs)))"
proof (induction xs rule: rev_induct)
  case Nil
  then show ?case by simp
next
  case (snoc x xs)
  show ?case
  proof (cases "k x = key")
    case True
    then show ?thesis by (simp add: py_dict_snoc)
  next
    case False
    with snoc.prems have "filter (\<lambda>a. k a = key) xs \<noteq> []" by simp
    from snoc.IH [OF this] False show ?thesis by (simp add: py_dict_snoc)
  qed
qed

lemma dict_get_map_of: "dict_get d k dflt = (case map_of d k of None \<Rightarrow> dflt | Some v \<Rightarrow> v)"
  by (induction d) auto

lemma map_of_dict_set: "map_of (dict_set d k v) = (map_of d)(k \<mapsto> v)"
  by (induction d) (auto simp: fun_eq_iff)

lemma total_sessions_notin: "i \<notin> instructorId ` set gs \<Longrightarrow> total_sessions gs i = 0"
proof -
  assume "i \<notin> instructorId ` set gs"
  then have "filter (\<lambda>g. instructorId g = i) gs = []" by (auto simp: filter_empty_conv)
  then show ?thesis by (simp add: total_sessions_def)
qed

lemma total_sessions_Cons:
  "total_sessions (g # gs) i = (if instructorId g = i then sessions g else 0) + total_sessions gs i"
  by (simp add: total_sessions_def)

lemma sessions_fold_map_of:
  "map_of (foldl (\<lambda>d g. dict_set d (instructorId g) (dict_get d (instructorId g) 0 + sessions g)) d gs) i =
     (if i \<in> instructorId ` set gs
      then Some ((case map_of d i of None \<Rightarrow> 0 | Some v \<Rightarrow> v) + total_sessions gs i)
      else map_of d i)"
proof (induction gs arbitrary: d)
  case Nil
  then show ?case by simp
next
  case (Cons g gs)
  let ?f = "\<lambda>d g. dict_set d (instructorId g) (dict_get d (instructorId g) 0 + sessions g)"
  let ?d = "dict_set d (instructorId g) (dict_get d (instructorId g) 0 + sessions g)"
  have "map_of (foldl ?f d (g # gs)) i = map_of (foldl ?f ?d gs) i" by simp
  also have "\<dots> = (if i \<in> instructorId ` set gs
      then Some ((case map_of ?d i of None \<Rightarrow> 0 | Some v \<Rightarrow> v) + total_sessions gs i)
      else map_of ?d i)" by (rule Cons.IH)
  also have "\<dots> = (if i \<in> instructorId ` set (g # gs)
      then Some ((case map_of d i of None \<Rightarrow> 0 | Some v \<Rightarrow> v) + total_sessions (g # gs) i)
      else map_of d i)"
    by (auto simp add: map_of_dict_set dict_get_map_of total_sessions_Cons total_sessions_notin
          split: option.splits)
  finally show ?case .
qed

lemma dict_set_keys: "fst ` set (dict_set d k v) = insert k (fst ` set d)"
proof (induction d)
  case Nil
  then show ?case by simp
next
  case (Cons p d)
  then show ?case by (cases p) (simp add: insert_commute)
qed

lemma dict_set_distinct: "distinct (map fst d) \<Longrightarrow> distinct (map fst (dict_set d k v))"
proof (induction d)
  case Nil
  then show ?case by simp
next
  case (Cons p d)
  have "fst ` set (dict_set d k v) = insert k (fst ` set d)" by (rule dict_set_keys)
  with Cons show ?case by (cases p) auto
qed

lemma sessions_fold_distinct:
  "distinct (map fst d) \<Longrightarrow>
   distinct (map fst (foldl (\<lambda>d g. dict_set d (instructorId g) (dict_get d (instructorId g) 0 + sessions g)) d gs))"
  by (induction gs arbitrary: d) (auto simp: dict_set_distinct)

lemma sessions_per_instructor_lookup:
  "map_of (sessions_per_instructor req) i =
     (if i \<in> instructorId ` set (groups req) then Some (total_sessions (groups req) i) else None)"
  by (simp add: sessions_per_instructor_def sessions_fold_map_of)

lemma sessions_per_instructor_distinct: "distinct (map fst (sessions_per_instructor req))"
  by (simp add: sessions_per_instructor_def sessions_fold_distinct)

lemma sessions_per_instructor_mem:
  "(i, n) \<in> set (sessions_per_instructor req) \<longleftrightarrow>
     i \<in> instructorId ` set (groups req) \<and> n = total_sessions (groups req) i"
proof -
  have "(i, n) \<in> set (sessions_per_instructor req) \<longleftrightarrow> map_of (sessions_per_instructor req) i = Some n"
    using sessions_per_instructor_distinct by (metis map_of_eq_Some_iff)
  then show ?thesis by (auto simp: sessions_per_instructor_lookup)
qed

lemma check_instructor_append:
  "check_instructor amap errors p = errors @ check_instructor amap [] p"
  by (cases p) (simp split: option.splits add: Let_def)

lemma check_fold_concat:
  "foldl (check_instructor amap) errors ps = errors @ concat (map (check_instructor amap []) ps)"
proof (induction ps arbitrary: errors)
  case Nil
  then show ?case by simp
next
  case (Cons p ps)
  show ?case using check_instructor_append [of amap errors p] by (simp add: Cons.IH)
qed

lemma validation_errors_concat:
  "validation_errors req =
     concat (map (check_instructor (availability_map req) []) (sessions_per_instructor req))"
  by (simp add: validation_errors_def check_fold_concat)

section \<open>The validation loop\<close>

lemma availability_dict_dom: "dom (availability_dict req) = teacher ` set (availability req)"
  by (simp add: availability_dict_def dom_py_dict image_image)

lemma availability_map_dom: "dom (availability_map req) = teacherId ` set (availability req)"
  by (simp add: availability_map_def dom_py_dict image_image)

lemma max_hours_dict_dom: "dom (max_hours_dict req) = teacher ` set (availability req)"
  by (simp add: max_hours_dict_def dom_py_dict image_image)

lemma missing_teachers_set:
  "set (missing_teachers req) = instructor ` set (groups req) - teacher ` set (availability req)"
proof -
  have "\<And>n. (availability_dict req n = None) = (n \<notin> teacher ` set (availability req))"
    using availability_dict_dom [of req] by (metis domIff)
  then show ?thesis by (auto simp: missing_teachers_def)
qed

lemma missing_teachers_sorted: "sorted (missing_teachers req) \<and> distinct (missing_teachers req)"
  by (simp add: missing_teachers_def)

lemma hbe_in_check:
  "HourBudgetExceeded t j n m \<in> set (check_instructor amap [] (i, tot)) \<longleftrightarrow>
     (\<exists>a. amap i = Some a \<and> t = teacher a \<and> j = i \<and> n = tot \<and> m = maxHours a \<and>
          0 < maxHours a \<and> maxHours a < tot)"
  by (auto simp: Let_def split: option.splits)

lemma ins_in_check:
  "InsufficientSlots t j n l \<in> set (check_instructor amap [] (i, tot)) \<longleftrightarrow>
     (\<exists>a. amap i = Some a \<and> t = teacher a \<and> j = i \<and> n = tot \<and> l = length (slots a) \<and>
          int (length (slots a)) < tot)"
  by (auto simp: Let_def split: option.splits)

lemma zero_in_check:
  "ZeroHourBudgetViolation t j n \<in> set (check_instructor amap [] (i, tot)) \<longleftrightarrow>
     (\<exists>a. amap i = Some a \<and> t = teacher a \<and> j = i \<and> n = tot \<and> maxHours a = 0 \<and> 0 < tot)"
  by (auto simp: Let_def split: option.splits)

lemma missing_in_check:
  "MissingAvailability j \<in> set (check_instructor amap [] (i, tot)) \<longleftrightarrow> (amap i = None \<and> j = i)"
  by (auto simp: Let_def split: option.splits)

declare check_instructor.simps [simp del]

lemma in_validation_errors:
  "v \<in> set (validation_errors req) \<longleftrightarrow>
     (\<exists>i \<in> instructorId ` set (groups req).
        v \<in> set (check_instructor (availability_map req) [] (i, total_sessions (groups req) i)))"
proof -
  have "v \<in> set (validation_errors req) \<longleftrightarrow>
      (\<exists>p \<in> set (sessions_per_instructor req). v \<in> set (check_instructor (availability_map req) [] p))"
    by (simp add: validation_errors_concat)
  also have "\<dots> \<longleftrightarrow> (\<exists>i n. (i, n) \<in> set (sessions_per_instructor req) \<and>
        v \<in> set (check_instructor (availability_map req) [] (i, n)))"
    by auto
  also have "\<dots> \<longleftrightarrow> (\<exists>i \<in> instructorId ` set (groups req).
        v \<in> set (check_instructor (availability_map req) [] (i, total_sessions (groups req) i)))"
    unfolding sessions_per_instructor_mem by blast
  finally show ?thesis .
qed

lemma hour_budget_violation_of_iff:
  "hour_budget_violation_of i v \<longleftrightarrow> (\<exists>t n m. v = HourBudgetExceeded t i n m)"
  by (cases v) auto

lemma hour_budget_reported_iff:
  "hour_budget_reported errors i \<longleftrightarrow> (\<exists>t n m. HourBudgetExceeded t i n m \<in> set errors)"
  unfolding hour_budget_reported_def list_ex_iff hour_budget_violation_of_iff by blast

text \<open>
  Claim C6. The validator reports a violation of the HourBudgetExceeded class for an
  instructor id exactly when the availability record of that id has maxHours greater
  than 0 and the total of the \<open>sessions\<close> of the groups of that id, counted unweighted,
  exceeds maxHours.
\<close>

theorem validator_hour_budget_iff:
  "hour_budget_reported (validation_errors req) i \<longleftrightarrow>
     (\<exists>a. availability_map req i = Some a \<and> 0 < maxHours a \<and>
          maxHours a < total_sessions (groups req) i)"
proof
  assume "hour_budget_reported (validation_errors req) i"
  then obtain t n m where "HourBudgetExceeded t i n m \<in> set (validation_errors req)"
    by (auto simp: hour_budget_reported_iff)
  then show "\<exists>a. availability_map req i = Some a \<and> 0 < maxHours a \<and>
          maxHours a < total_sessions (groups req) i"
    by (auto simp: in_validation_errors hbe_in_check)
next
  assume r: "\<exists>a. availability_map req i = Some a \<and> 0 < maxHours a \<and>
          maxHours a < total_sessions (groups req) i"
  then obtain a where a: "availability_map req i = Some a" "0 < maxHours a"
    "maxHours a < total_sessions (groups req) i" by blast
  have "i \<in> instructorId ` set (groups req)"
  proof (rule ccontr)
    assume "i \<notin> instructorId ` set (groups req)"
    then have "total_sessions (groups req) i = 0" by (rule total_sessions_notin)
    with a show False by simp
  qed
  with a have "HourBudgetExceeded (teacher a) i (total_sessions (groups req) i) (maxHours a)
      \<in> set (validation_errors req)"
    unfolding in_validation_errors hbe_in_check by blast
  then show "hour_budget_reported (validation_errors req) i"
    unfolding hour_budget_reported_iff by blast
qed

section \<open>Request-level check and accumulation of violations\<close>

lemmas request_defs = group_ada_def group_bob_def slot_mon_8_def
  availability_map_def availability_dict_def max_hours_dict_def py_dict_def
  sessions_per_instructor_def validation_errors_def missing_teachers_def
  check_instructor.simps total_sessions_def

text \<open>The theorem at a request where Ada (I1) has 3 sessions against maxHours 2.\<close>

theorem validator_hour_budget_iff_witness:
  "hour_budget_reported (validation_errors overloaded_request) ''I1'' \<and>
   \<not> hour_budget_reported (validation_errors overloaded_request) ''I2''"
proof -
  have "\<exists>a. availability_map overloaded_request ''I1'' = Some a \<and> 0 < maxHours a \<and>
          maxHours a < total_sessions (groups overloaded_request) ''I1''"
    by (simp add: overloaded_request_def request_defs)
  moreover have "\<not> (\<exists>a. availability_map overloaded_request ''I2'' = Some a \<and> 0 < maxHours a \<and>
          maxHours a < total_sessions (groups overloaded_request) ''I2'')"
    by (simp add: overloaded_request_def request_defs)
  ultimately show ?thesis
    using validator_hour_budget_iff [of overloaded_request "''I1''"]
      validator_hour_budget_iff [of overloaded_request "''I2''"] by blast
qed

text \<open>
  Claim C5. When some group's instructor is no teacher of any availability record, the
  request fails with the request-level missing-instructors error, whatever the validation
  loop would find and whatever the solver would answer. The error lists the set difference
  of the instructor names of the groups and the teacher names of the availability records,
  sorted and without repetition. The identifiers compared are the fields \<open>instructor\<close> and
  \<open>teacher\<close>.
\<close>

theorem missing_instructor_request_level:
  assumes "g \<in> set (groups req)" and "instructor g \<notin> teacher ` set (availability req)"
  shows "create_schedule solve req = Inl (MissingInstructors (missing_teachers req)) \<and>
         instructor g \<in> set (missing_teachers req) \<and>
         set (missing_teachers req) =
           instructor ` set (groups req) - teacher ` set (availability req) \<and>
         sorted (missing_teachers req) \<and> distinct (missing_teachers req)"
proof -
  from assms have mem: "instructor g \<in> set (missing_teachers req)"
    by (simp add: missing_teachers_set)
  then have "missing_teachers req \<noteq> []" by auto
  then have "create_schedule solve req = Inl (MissingInstructors (missing_teachers req))"
    by (simp add: create_schedule_def)
  with mem show ?thesis
    using missing_teachers_set [of req] missing_teachers_sorted [of req] by simp
qed

text \<open>The theorem at a request whose group of Bob has no availability record.\<close>

theorem missing_instructor_request_level_witness:
  "group_bob \<in> set (groups unlisted_request) \<and>
   instructor group_bob \<notin> teacher ` set (availability unlisted_request) \<and>
   create_schedule silent_solver unlisted_request = Inl (MissingInstructors [''Bob''])"
proof -
  have a: "group_bob \<in> set (groups unlisted_request)"
    by (simp add: unlisted_request_def)
  have b: "instructor group_bob \<notin> teacher ` set (availability unlisted_request)"
    by (simp add: unlisted_request_def group_bob_def)
  have c: "missing_teachers unlisted_request = [''Bob'']"
    by (simp add: unlisted_request_def request_defs)
  show ?thesis
    using a b c missing_instructor_request_level [OF a b, of silent_solver] by simp
qed

text \<open>
  Claim C7. In a request that passes the request-level check, the loop visits every
  instructor id with assigned groups and never stops at a violation: the list of messages
  is the concatenation, in the order of the instructors, of what the loop body yields for
  each instructor alone. For an instructor with an availability record each of the three
  rules adds its message exactly when its condition holds, independently of the others;
  an instructor id without a record (which the consistency of names and ids excludes)
  adds the no-availability message. A non-empty list fails the request with the whole
  list, for every solver: no model is solved.
\<close>

theorem validator_accumulates_all:
  assumes "missing_teachers req = []"
  shows "validation_errors req =
           concat (map (check_instructor (availability_map req) []) (sessions_per_instructor req)) \<and>
         (\<forall>i \<in> instructorId ` set (groups req).
            (case availability_map req i of
               None \<Rightarrow> MissingAvailability i \<in> set (validation_errors req)
             | Some a \<Rightarrow>
                 (InsufficientSlots (teacher a) i (total_sessions (groups req) i) (length (slots a))
                    \<in> set (validation_errors req)
                  \<longleftrightarrow> int (length (slots a)) < total_sessions (groups req) i) \<and>
                 (ZeroHourBudgetViolation (teacher a) i (total_sessions (groups req) i)
                    \<in> set (validation_errors req)
                  \<longleftrightarrow> maxHours a = 0 \<and> 0 < total_sessions (groups req) i) \<and>
                 (HourBudgetExceeded (teacher a) i (total_sessions (groups req) i) (maxHours a)
                    \<in> set (validation_errors req)
                  \<longleftrightarrow> 0 < maxHours a \<and> maxHours a < total_sessions (groups req) i))) \<and>
         (ids_consistent req \<longrightarrow>
            (\<forall>i \<in> instructorId ` set (groups req). availability_map req i \<noteq> None)) \<and>
         (validation_errors req \<noteq> [] \<longrightarrow>
            create_schedule solve req = Inl (ValidationErrors (validation_errors req)))"
proof -
  have per: "\<forall>i \<in> instructorId ` set (groups req).
            (case availability_map req i of
               None \<Rightarrow> MissingAvailability i \<in> set (validation_errors req)
             | Some a \<Rightarrow>
                 (InsufficientSlots (teacher a) i (total_sessions (groups req) i) (length (slots a))
                    \<in> set (validation_errors req)
                  \<longleftrightarrow> int (length (slots a)) < total_sessions (groups req) i) \<and>
                 (ZeroHourBudgetViolation (teacher a) i (total_sessions (groups req) i)
                    \<in> set (validation_errors req)
                  \<longleftrightarrow> maxHours a = 0 \<and> 0 < total_sessions (groups req) i) \<and>
                 (HourBudgetExceeded (teacher a) i (total_sessions (groups req) i) (maxHours a)
                    \<in> set (validation_errors req)
                  \<longleftrightarrow> 0 < maxHours a \<and> maxHours a < total_sessions (groups req) i))"
  proof
    fix i assume i: "i \<in> instructorId ` set (groups req)"
    show "case availability_map req i of
               None \<Rightarrow> MissingAvailability i \<in> set (validation_errors req)
             | Some a \<Rightarrow>
                 (InsufficientSlots (teacher a) i (total_sessions (groups req) i) (length (slots a))
                    \<in> set (validation_errors req)
                  \<longleftrightarrow> int (length (slots a)) < total_sessions (groups req) i) \<and>
                 (ZeroHourBudgetViolation (teacher a) i (total_sessions (groups req) i)
                    \<in> set (validation_errors req)
                  \<longleftrightarrow> maxHours a = 0 \<and> 0 < total_sessions (groups req) i) \<and>
                 (HourBudgetExceeded (teacher a) i (total_sessions (groups req) i) (maxHours a)
                    \<in> set (validation_errors req)
                  \<longleftrightarrow> 0 < maxHours a \<and> maxHours a < total_sessions (groups req) i)"
    proof (cases "availability_map req i")
      case None
      with i show ?thesis
        unfolding in_validation_errors missing_in_check by auto
    next
      case (Some a)
      with i show ?thesis
        unfolding in_validation_errors ins_in_check zero_in_check hbe_in_check by auto
    qed
  qed
  have cons: "ids_consistent req \<longrightarrow>
            (\<forall>i \<in> instructorId ` set (groups req). availability_map req i \<noteq> None)"
  proof (intro impI ballI)
    fix i assume c: "ids_consistent req" and "i \<in> instructorId ` set (groups req)"
    then obtain g where g: "g \<in> set (groups req)" "i = instructorId g" by auto
    from assms have "set (missing_teachers req) = {}" by simp
    with g have "instructor g \<in> teacher ` set (availability req)"
      unfolding missing_teachers_set by auto
    then obtain a where a: "a \<in> set (availability req)" "instructor g = teacher a" by auto
    with c g have "instructorId g = teacherId a" by (auto simp: ids_consistent_def)
    with a have "i \<in> dom (availability_map req)"
      unfolding availability_map_dom using g by auto
    then show "availability_map req i \<noteq> None" by auto
  qed
  have fail: "validation_errors req \<noteq> [] \<longrightarrow>
            create_schedule solve req = Inl (ValidationErrors (validation_errors req))"
    using assms by (simp add: create_schedule_def)
  from per cons fail show ?thesis
    using validation_errors_concat [of req] by blast
qed

text \<open>The theorem at a request with two instructors and two violations each.\<close>

theorem validator_accumulates_all_witness:
  "missing_teachers overloaded_request = [] \<and>
   ids_consistent overloaded_request \<and>
   validation_errors overloaded_request =
     [InsufficientSlots ''Ada'' ''I1'' 3 1, HourBudgetExceeded ''Ada'' ''I1'' 3 2,
      InsufficientSlots ''Bob'' ''I2'' 1 0, ZeroHourBudgetViolation ''Bob'' ''I2'' 1] \<and>
   create_schedule silent_solver overloaded_request =
     Inl (ValidationErrors
       [InsufficientSlots ''Ada'' ''I1'' 3 1, HourBudgetExceeded ''Ada'' ''I1'' 3 2,
        InsufficientSlots ''Bob'' ''I2'' 1 0, ZeroHourBudgetViolation ''Bob'' ''I2'' 1])"
proof -
  have a: "missing_teachers overloaded_request = []"
    by (simp add: overloaded_request_def request_defs)
  have b: "ids_consistent overloaded_request"
    by (simp add: ids_consistent_def overloaded_request_def request_defs)
  have c: "validation_errors overloaded_request =
     [InsufficientSlots ''Ada'' ''I1'' 3 1, HourBudgetExceeded ''Ada'' ''I1'' 3 2,
      InsufficientSlots ''Bob'' ''I2'' 1 0, ZeroHourBudgetViolation ''Bob'' ''I2'' 1]"
    by (simp add: overloaded_request_def request_defs)
  show ?thesis
    using a b c validator_accumulates_all [OF a, of silent_solver] by simp
qed

section \<open>Counting with 0/1 values\<close>

lemma sum_list_indicator:
  "(\<And>x. x \<in> set xs \<Longrightarrow> f x = 0 \<or> f x = (1::int)) \<Longrightarrow>
   sum_list (map f xs) = int (length (filter (\<lambda>x. f x = 1) xs))"
  by (induction xs) auto

lemma length_filter_mono:
  "(\<And>x. x \<in> set xs \<Longrightarrow> P x \<Longrightarrow> Q x) \<Longrightarrow> length (filter P xs) \<le> length (filter Q xs)"
  by (induction xs) auto

lemma filter_le_one_unique:
  "length (filter P xs) \<le> 1 \<Longrightarrow> a \<in> set xs \<Longrightarrow> b \<in> set xs \<Longrightarrow> P a \<Longrightarrow> P b \<Longrightarrow> a = b"
proof (induction xs)
  case Nil
  then show ?case by simp
next
  case (Cons x xs)
  show ?case
  proof (cases "P x")
    case True
    with Cons.prems(1) have "filter P xs = []" by simp
    then have "\<forall>y \<in> set xs. \<not> P y" by (simp add: filter_empty_conv)
    with Cons.prems show ?thesis by auto
  next
    case False
    with Cons show ?thesis by auto
  qed
qed

lemma distinct_map_by_count:
  "(\<And>v. length (filter (\<lambda>x. h x = v) xs) \<le> 1) \<Longrightarrow> distinct (map h xs)"
proof (induction xs)
  case Nil
  then show ?case by simp
next
  case (Cons x xs)
  have tail: "\<And>v. length (filter (\<lambda>y. h y = v) xs) \<le> 1"
  proof -
    fix v
    have "length (filter (\<lambda>y. h y = v) xs) \<le> length (filter (\<lambda>y. h y = v) (x # xs))" by simp
    also have "\<dots> \<le> 1" by (rule Cons.prems)
    finally show "length (filter (\<lambda>y. h y = v) xs) \<le> 1" .
  qed
  have "h x \<notin> h ` set xs"
  proof
    assume "h x \<in> h ` set xs"
    then obtain y where y: "y \<in> set xs" "h y = h x" by auto
    then have "filter (\<lambda>z. h z = h x) xs \<noteq> []" by (auto simp: filter_empty_conv)
    then have "length (filter (\<lambda>z. h z = h x) xs) \<ge> 1" by (cases "filter (\<lambda>z. h z = h x) xs") auto
    then have "length (filter (\<lambda>z. h z = h x) (x # xs)) \<ge> 2" by simp
    with Cons.prems [of "h x"] show False by simp
  qed
  with Cons.IH tail show ?case by simp
qed

lemma lin_sum_unit: "lin_sum val (map (\<lambda>x. (1, k x)) xs) = sum_list (map (\<lambda>x. val (k x)) xs)"
  by (simp add: lin_sum_def o_def)

lemma y_keys_iff:
  "k \<in> set (y_keys gs rs) \<longleftrightarrow> (\<exists>g \<in> set gs. \<exists>r \<in> set rs. compatible g r \<and> k = y_key g r)"
  by (auto simp: y_keys_def)

lemma room_model_bool:
  "satisfies (room_model gs rs) val \<Longrightarrow> k \<in> set (y_keys gs rs) \<Longrightarrow> val k = 0 \<or> val k = 1"
  by (simp add: satisfies_def room_model_def Let_def list_all_iff)

lemma room_model_one_room:
  "satisfies (room_model gs rs) val \<Longrightarrow> g \<in> set gs \<Longrightarrow> holds val (one_room (y_keys gs rs) rs g)"
  by (simp add: satisfies_def room_model_def Let_def list_all_iff)

lemma room_model_one_group:
  "satisfies (room_model gs rs) val \<Longrightarrow> r \<in> set rs \<Longrightarrow> holds val (one_group (y_keys gs rs) gs r)"
  by (simp add: satisfies_def room_model_def Let_def list_all_iff)

lemma room_count:
  assumes sat: "satisfies (room_model gs rs) val" and g: "g \<in> set gs"
  shows "length (filter (\<lambda>r. y_key g r \<in> set (y_keys gs rs) \<and> val (y_key g r) = 1) rs) = 1"
proof -
  let ?P = "\<lambda>r. y_key g r \<in> set (y_keys gs rs)"
  have "sum_list (map (\<lambda>r. val (y_key g r)) (filter ?P rs)) = 1"
    using room_model_one_room [OF sat g] by (simp add: one_room_def lin_sum_unit)
  moreover have "sum_list (map (\<lambda>r. val (y_key g r)) (filter ?P rs)) =
      int (length (filter (\<lambda>r. val (y_key g r) = 1) (filter ?P rs)))"
    by (rule sum_list_indicator) (use room_model_bool [OF sat] in auto)
  ultimately show ?thesis by (simp add: conj_commute)
qed

lemma group_count:
  assumes sat: "satisfies (room_model gs rs) val" and r: "r \<in> set rs"
  shows "length (filter (\<lambda>g. y_key g r \<in> set (y_keys gs rs) \<and> val (y_key g r) = 1) gs) \<le> 1"
proof -
  let ?P = "\<lambda>g. y_key g r \<in> set (y_keys gs rs)"
  have "sum_list (map (\<lambda>g. val (y_key g r)) (filter ?P gs)) \<le> 1"
    using room_model_one_group [OF sat r] by (simp add: one_group_def lin_sum_unit)
  moreover have "sum_list (map (\<lambda>g. val (y_key g r)) (filter ?P gs)) =
      int (length (filter (\<lambda>g. val (y_key g r) = 1) (filter ?P gs)))"
    by (rule sum_list_indicator) (use room_model_bool [OF sat] in auto)
  ultimately show ?thesis by (simp add: conj_commute)
qed

lemma assigned_room_Some:
  "assigned_room y rs val g = Some rid \<Longrightarrow>
   \<exists>r \<in> set rs. room_id r = rid \<and> y_key g r \<in> set y \<and> val (y_key g r) = 1"
  by (auto simp: assigned_room_def find_Some_iff)

lemma assigned_room_defined:
  assumes sat: "satisfies (room_model gs rs) val" and g: "g \<in> set gs"
  shows "\<exists>rid. assigned_room (y_keys gs rs) rs val g = Some rid"
proof -
  have "filter (\<lambda>r. y_key g r \<in> set (y_keys gs rs) \<and> val (y_key g r) = 1) rs \<noteq> []"
    using room_count [OF sat g] by auto
  then have "find (\<lambda>r. y_key g r \<in> set (y_keys gs rs) \<and> val (y_key g r) = 1) rs \<noteq> None"
    by (auto simp: find_None_iff filter_empty_conv)
  then show ?thesis by (auto simp: assigned_room_def)
qed

lemma assigned_room_compatible:
  assumes sat: "satisfies (room_model gs rs) val" and g: "g \<in> set gs"
    and a: "assigned_room (y_keys gs rs) rs val g = Some rid"
  shows "\<exists>r \<in> set rs. room_id r = rid \<and> compatible g r"
proof -
  from assigned_room_Some [OF a] obtain r where r: "r \<in> set rs" "room_id r = rid"
    "y_key g r \<in> set (y_keys gs rs)" "val (y_key g r) = 1" by blast
  from r(3) obtain g' r' where c: "g' \<in> set gs" "r' \<in> set rs" "compatible g' r'"
    "y_key g r = y_key g' r'" by (auto simp: y_keys_iff)
  let ?Q = "\<lambda>h. y_key h r' \<in> set (y_keys gs rs) \<and> val (y_key h r') = 1"
  have le: "length (filter ?Q gs) \<le> 1" by (rule group_count [OF sat c(2)])
  have k: "y_key g r' = y_key g r" "y_key g' r' = y_key g r"
    using c(4) by (auto simp: y_key_def)
  have "?Q g" "?Q g'" using r k by auto
  with le g c(1) have "g = g'" by (rule filter_le_one_unique)
  moreover have "room_id r' = rid" using c(4) r(2) by (simp add: y_key_def)
  ultimately show ?thesis using c by auto
qed

lemma assigned_room_distinct:
  assumes sat: "satisfies (room_model gs rs) val"
  shows "distinct (map (assigned_room (y_keys gs rs) rs val) gs)"
proof (rule distinct_map_by_count)
  fix v
  let ?A = "assigned_room (y_keys gs rs) rs val"
  show "length (filter (\<lambda>g. ?A g = v) gs) \<le> 1"
  proof (cases "\<exists>g0 \<in> set gs. ?A g0 = v")
    case False
    then have "filter (\<lambda>g. ?A g = v) gs = []" by (auto simp: filter_empty_conv)
    then show ?thesis by simp
  next
    case True
    then obtain g0 where g0: "g0 \<in> set gs" "?A g0 = v" by blast
    from assigned_room_defined [OF sat g0(1)] g0(2) obtain rid where v: "v = Some rid" by auto
    from assigned_room_Some [of "y_keys gs rs" rs val g0 rid] g0 v
    obtain r0 where r0: "r0 \<in> set rs" "room_id r0 = rid" by auto
    let ?Q = "\<lambda>g. y_key g r0 \<in> set (y_keys gs rs) \<and> val (y_key g r0) = 1"
    have "length (filter (\<lambda>g. ?A g = v) gs) \<le> length (filter ?Q gs)"
    proof (rule length_filter_mono)
      fix g assume "g \<in> set gs" and "?A g = v"
      with v have "?A g = Some rid" by simp
      from assigned_room_Some [OF this] obtain r where r: "room_id r = rid"
        "y_key g r \<in> set (y_keys gs rs)" "val (y_key g r) = 1" by blast
      have "y_key g r0 = y_key g r" using r(1) r0(2) by (simp add: y_key_def)
      with r show "?Q g" by simp
    qed
    also have "\<dots> \<le> 1" by (rule group_count [OF sat r0(1)])
    finally show ?thesis .
  qed
qed

section \<open>The loop over the slots\<close>

lemma collect_assignments_defined:
  "(\<And>g. g \<in> set gs \<Longrightarrow> \<exists>rid. assigned_room y rs val g = Some rid) \<Longrightarrow>
   collect_assignments y rs val final gs =
     Inr (final @ map (\<lambda>g. distributed_entry g (the (assigned_room y rs val g))) gs)"
proof (induction gs arbitrary: final)
  case Nil
  then show ?case by simp
next
  case (Cons g gs)
  from Cons.prems [of g] obtain rid where rid: "assigned_room y rs val g = Some rid" by auto
  have "collect_assignments y rs val (final @ [distributed_entry g rid]) gs =
     Inr ((final @ [distributed_entry g rid]) @
          map (\<lambda>g. distributed_entry g (the (assigned_room y rs val g))) gs)"
    by (rule Cons.IH) (simp add: Cons.prems)
  with rid show ?case by simp
qed

lemma solved_slot_collect:
  assumes sound: "solver_sound solve" and ok: "\<not> unsolved solve rs (dt, gs)"
  shows "collect_assignments (y_keys gs rs) rs (snd (solve (room_model gs rs))) final gs =
           Inr (final @ map entry_of_pair (slot_pairs solve rs gs))"
proof -
  from sound ok have sat: "satisfies (room_model gs rs) (snd (solve (room_model gs rs)))"
    by (simp add: solver_sound_def unsolved_def)
  have "collect_assignments (y_keys gs rs) rs (snd (solve (room_model gs rs))) final gs =
     Inr (final @ map (\<lambda>g. distributed_entry g
       (the (assigned_room (y_keys gs rs) rs (snd (solve (room_model gs rs))) g))) gs)"
    by (rule collect_assignments_defined) (rule assigned_room_defined [OF sat])
  then show ?thesis by (simp add: slot_pairs_def slot_rooms_def entry_of_pair_def o_def)
qed

lemma distribute_slots_step:
  assumes sound: "solver_sound solve"
  shows "distribute_slots solve rs final ((dt, gs) # rest) =
     (if unsolved solve rs (dt, gs) then Inl (NoFeasibleRoomAssignment (fst dt) (snd dt))
      else distribute_slots solve rs (final @ map entry_of_pair (slot_pairs solve rs gs)) rest)"
proof (cases "unsolved solve rs (dt, gs)")
  case True
  then show ?thesis by (cases "solve (room_model gs rs)") (simp add: unsolved_def)
next
  case False
  from solved_slot_collect [OF sound False, of final] False show ?thesis
    by (cases "solve (room_model gs rs)") (simp add: unsolved_def)
qed

declare distribute_slots.simps(2) [simp del]

lemma distribute_slots_solved:
  assumes sound: "solver_sound solve"
  shows "(\<And>p. p \<in> set ps \<Longrightarrow> \<not> unsolved solve rs p) \<Longrightarrow>
    distribute_slots solve rs final ps =
      Inr (final @ map entry_of_pair (concat (map (\<lambda>p. slot_pairs solve rs (snd p)) ps)))"
proof (induction ps arbitrary: final)
  case Nil
  then show ?case by simp
next
  case (Cons p ps)
  obtain dt gs where p: "p = (dt, gs)" by (cases p)
  have "\<not> unsolved solve rs (dt, gs)" using Cons.prems [of p] p by simp
  then have "distribute_slots solve rs final (p # ps) =
      distribute_slots solve rs (final @ map entry_of_pair (slot_pairs solve rs gs)) ps"
    unfolding p by (simp add: distribute_slots_step [OF sound])
  also have "\<dots> = Inr ((final @ map entry_of_pair (slot_pairs solve rs gs)) @
      map entry_of_pair (concat (map (\<lambda>p. slot_pairs solve rs (snd p)) ps)))"
    by (rule Cons.IH) (simp add: Cons.prems)
  finally show ?case by (simp add: p)
qed

lemma distribute_slots_unsolved:
  assumes sound: "solver_sound solve"
  shows "find (unsolved solve rs) ps = Some (dt, gs) \<Longrightarrow>
    distribute_slots solve rs final ps = Inl (NoFeasibleRoomAssignment (fst dt) (snd dt))"
proof (induction ps arbitrary: final)
  case Nil
  then show ?case by simp
next
  case (Cons p ps)
  obtain dt' gs' where p: "p = (dt', gs')" by (cases p)
  show ?case
  proof (cases "unsolved solve rs p")
    case True
    with Cons.prems have "p = (dt, gs)" by simp
    with True p show ?thesis by (simp add: distribute_slots_step [OF sound])
  next
    case False
    with Cons.prems have "find (unsolved solve rs) ps = Some (dt, gs)" by simp
    from Cons.IH [OF this] False p show ?thesis by (simp add: distribute_slots_step [OF sound])
  qed
qed

lemma distribute_slots_success:
  assumes sound: "solver_sound solve" and res: "distribute_slots solve rs final ps = Inr out"
  shows "(\<forall>p \<in> set ps. \<not> unsolved solve rs p) \<and>
         out = final @ map entry_of_pair (concat (map (\<lambda>p. slot_pairs solve rs (snd p)) ps))"
proof (cases "find (unsolved solve rs) ps")
  case None
  then have all: "\<And>p. p \<in> set ps \<Longrightarrow> \<not> unsolved solve rs p" by (auto simp: find_None_iff)
  have "distribute_slots solve rs final ps =
      Inr (final @ map entry_of_pair (concat (map (\<lambda>p. slot_pairs solve rs (snd p)) ps)))"
    by (rule distribute_slots_solved [OF sound all])
  with res all show ?thesis by auto
next
  case (Some p)
  obtain dt gs where "p = (dt, gs)" by (cases p)
  with Some have "distribute_slots solve rs final ps = Inl (NoFeasibleRoomAssignment (fst dt) (snd dt))"
    by (simp add: distribute_slots_unsolved [OF sound])
  with res show ?thesis by simp
qed

text \<open>Properties of the partition \<open>slot_to_groups\<close>.\<close>

lemma dict_append_keys: "fst ` set (dict_append d k v) = insert k (fst ` set d)"
proof (induction d)
  case Nil
  then show ?case by simp
next
  case (Cons p d)
  then show ?case by (cases p) (simp add: insert_commute)
qed

lemma dict_append_distinct: "distinct (map fst d) \<Longrightarrow> distinct (map fst (dict_append d k v))"
proof (induction d)
  case Nil
  then show ?case by simp
next
  case (Cons p d)
  have "fst ` set (dict_append d k v) = insert k (fst ` set d)" by (rule dict_append_keys)
  with Cons show ?case by (cases p) auto
qed

lemma dict_append_mset:
  "mset (concat (map snd (dict_append d k v))) = mset (concat (map snd d)) + {#v#}"
  by (induction d) auto

lemma dict_append_keyed:
  "(\<And>k' vs x. (k', vs) \<in> set d \<Longrightarrow> x \<in> set vs \<Longrightarrow> key x = k') \<Longrightarrow> key v = k \<Longrightarrow>
   (k', vs) \<in> set (dict_append d k v) \<Longrightarrow> x \<in> set vs \<Longrightarrow> key x = k'"
proof (induction d)
  case Nil
  then show ?case by auto
next
  case (Cons p d)
  obtain k0 vs0 where p: "p = (k0, vs0)" by (cases p)
  show ?case
  proof (cases "k0 = k")
    case True
    with Cons.prems(3) p have "(k', vs) = (k, vs0 @ [v]) \<or> (k', vs) \<in> set d" by auto
    then show ?thesis
    proof
      assume e: "(k', vs) = (k, vs0 @ [v])"
      with Cons.prems(4) have "x \<in> set vs0 \<or> x = v" by auto
      then show ?thesis
      proof
        assume "x \<in> set vs0"
        with Cons.prems(1) [of k0 vs0 x] p True e show ?thesis by auto
      next
        assume "x = v"
        with Cons.prems(2) e show ?thesis by auto
      qed
    next
      assume "(k', vs) \<in> set d"
      with Cons.prems(1) [of k' vs x] Cons.prems(4) show ?thesis by auto
    qed
  next
    case False
    with Cons.prems(3) p have "(k', vs) = (k0, vs0) \<or> (k', vs) \<in> set (dict_append d k v)" by auto
    then show ?thesis
    proof
      assume "(k', vs) = (k0, vs0)"
      with Cons.prems(1) [of k0 vs0 x] Cons.prems(4) p show ?thesis by auto
    next
      assume m: "(k', vs) \<in> set (dict_append d k v)"
      show ?thesis
        by (rule Cons.IH [OF _ Cons.prems(2) m Cons.prems(4)]) (rule Cons.prems(1), auto)
    qed
  qed
qed

lemma slot_fold_distinct:
  "distinct (map fst d) \<Longrightarrow>
   distinct (map fst (foldl (\<lambda>d g. dict_append d (slot_key g) g) d sgs))"
  by (induction sgs arbitrary: d) (auto simp: dict_append_distinct)

lemma slot_fold_mset:
  "mset (concat (map snd (foldl (\<lambda>d g. dict_append d (slot_key g) g) d sgs))) =
     mset (concat (map snd d)) + mset sgs"
  by (induction sgs arbitrary: d) (auto simp: dict_append_mset)

lemma slot_fold_keyed:
  "(\<And>k vs x. (k, vs) \<in> set d \<Longrightarrow> x \<in> set vs \<Longrightarrow> slot_key x = k) \<Longrightarrow>
   (k, vs) \<in> set (foldl (\<lambda>d g. dict_append d (slot_key g) g) d sgs) \<Longrightarrow> x \<in> set vs \<Longrightarrow>
   slot_key x = k"
proof (induction sgs arbitrary: d)
  case Nil
  then show ?case by auto
next
  case (Cons g sgs)
  show ?case
  proof (rule Cons.IH [of "dict_append d (slot_key g) g"])
    show "(k, vs) \<in> set (foldl (\<lambda>d g. dict_append d (slot_key g) g) (dict_append d (slot_key g) g) sgs)"
      using Cons.prems(2) by simp
    show "x \<in> set vs" by (rule Cons.prems(3))
  next
    fix k' vs' x'
    assume "(k', vs') \<in> set (dict_append d (slot_key g) g)" and "x' \<in> set vs'"
    with Cons.prems(1) show "slot_key x' = k'"
      using dict_append_keyed [of d slot_key g "slot_key g" k' vs' x'] by blast
  qed
qed

lemma slot_to_groups_distinct: "distinct (map fst (slot_to_groups sgs))"
  by (simp add: slot_to_groups_def slot_fold_distinct)

lemma slot_to_groups_mset: "mset (concat (map snd (slot_to_groups sgs))) = mset sgs"
  by (simp add: slot_to_groups_def slot_fold_mset)

lemma slot_to_groups_keyed:
  "(k, gs) \<in> set (slot_to_groups sgs) \<Longrightarrow> g \<in> set gs \<Longrightarrow> slot_key g = k"
  unfolding slot_to_groups_def by (rule slot_fold_keyed [of "[]"]) auto

section \<open>Structure of a successful distribution\<close>

lemma check_solver_sound: "solver_sound (check_solver val)"
  by (simp add: solver_sound_def check_solver_def has_solution_def)

lemma entry_room_pair: "entry_room (entry_of_pair p) = Some (StrV (snd p))"
  by (simp add: entry_room_def entry_of_pair_def distributed_entry_def)

lemma entry_slot_pair: "entry_slot (entry_of_pair p) = Some (slot_key (fst p))"
  by (simp add: entry_slot_def entry_of_pair_def distributed_entry_def slot_key_def)

lemma slot_pairs_fst: "map fst (slot_pairs solve rs gs) = gs"
  by (simp add: slot_pairs_def o_def)

lemma room_pairs_fst:
  "map fst (room_pairs solve req) = concat (map snd (slot_to_groups (scheduled_groups req)))"
  by (simp add: room_pairs_def map_concat o_def slot_pairs_fst)

lemma room_pairs_mset: "mset (map fst (room_pairs solve req)) = mset (scheduled_groups req)"
  by (simp add: room_pairs_fst slot_to_groups_mset)

lemma solved_slot_satisfies:
  "solver_sound solve \<Longrightarrow> \<not> unsolved solve rs p \<Longrightarrow>
   satisfies (room_model (snd p) rs) (snd (solve (room_model (snd p) rs)))"
  by (simp add: solver_sound_def unsolved_def)

lemma slot_pairs_compatible:
  assumes sat: "satisfies (room_model gs rs) (snd (solve (room_model gs rs)))"
    and p: "p \<in> set (slot_pairs solve rs gs)"
  shows "\<exists>r \<in> set rs. room_id r = snd p \<and> compatible (fst p) r"
proof -
  from p obtain g where g: "g \<in> set gs" "p = (g, the (slot_rooms solve rs gs g))"
    by (auto simp: slot_pairs_def)
  from assigned_room_defined [OF sat g(1)] obtain rid where
    rid: "assigned_room (y_keys gs rs) rs (snd (solve (room_model gs rs))) g = Some rid" by blast
  from assigned_room_compatible [OF sat g(1) rid] rid g show ?thesis
    by (simp add: slot_rooms_def)
qed

lemma slot_pairs_distinct_rooms:
  assumes sat: "satisfies (room_model gs rs) (snd (solve (room_model gs rs)))"
  shows "distinct (map snd (slot_pairs solve rs gs))"
proof -
  let ?A = "assigned_room (y_keys gs rs) rs (snd (solve (room_model gs rs)))"
  have d: "distinct (map ?A gs)" by (rule assigned_room_distinct [OF sat])
  have inj: "inj_on the (set (map ?A gs))"
  proof (rule inj_onI)
    fix a b assume a: "a \<in> set (map ?A gs)" and b: "b \<in> set (map ?A gs)"
      and e: "the a = the b"
    have some: "\<And>o'. o' \<in> set (map ?A gs) \<Longrightarrow> \<exists>rid. o' = Some rid"
      using assigned_room_defined [OF sat] by auto
    from some [OF a] obtain ra where "a = Some ra" by blast
    moreover from some [OF b] obtain rb where "b = Some rb" by blast
    ultimately show "a = b" using e by simp
  qed
  have "distinct (map the (map ?A gs))"
    by (rule iffD2 [OF distinct_map, OF conjI [OF d inj]])
  then show ?thesis by (simp add: slot_pairs_def slot_rooms_def o_def)
qed

lemma filter_keyed_concat:
  "distinct (map fst ps) \<Longrightarrow>
   (\<And>k gs x. (k, gs) \<in> set ps \<Longrightarrow> x \<in> set (F gs) \<Longrightarrow> key x = k) \<Longrightarrow>
   filter (\<lambda>x. key x = dt) (concat (map (\<lambda>p. F (snd p)) ps)) =
     (case map_of ps dt of None \<Rightarrow> [] | Some gs \<Rightarrow> F gs)"
proof (induction ps)
  case Nil
  then show ?case by simp
next
  case (Cons p ps)
  obtain k gs where p: "p = (k, gs)" by (cases p)
  have keyed: "\<And>k gs x. (k, gs) \<in> set ps \<Longrightarrow> x \<in> set (F gs) \<Longrightarrow> key x = k"
    using Cons.prems(2) by auto
  from Cons.prems(1) have dist: "distinct (map fst ps)" by simp
  have IH: "filter (\<lambda>x. key x = dt) (concat (map (\<lambda>p. F (snd p)) ps)) =
     (case map_of ps dt of None \<Rightarrow> [] | Some gs \<Rightarrow> F gs)"
    by (rule Cons.IH [OF dist keyed])
  have head: "\<And>x. x \<in> set (F gs) \<Longrightarrow> key x = k"
    using Cons.prems(2) [of k gs] p by auto
  show ?case
  proof (cases "k = dt")
    case True
    from Cons.prems(1) p True have "dt \<notin> fst ` set ps" by auto
    then have "map_of ps dt = None" by (simp add: map_of_eq_None_iff)
    moreover have "filter (\<lambda>x. key x = dt) (F gs) = F gs"
      using head True by (auto simp: filter_id_conv)
    ultimately show ?thesis using IH p True by simp
  next
    case False
    have "filter (\<lambda>x. key x = dt) (F gs) = []"
      using head False by (auto simp: filter_empty_conv)
    then show ?thesis using IH p False by simp
  qed
qed

lemma distribute_groups_success:
  assumes sound: "solver_sound solve" and res: "distribute_groups solve req = Inr out"
  shows "out = map entry_of_pair (room_pairs solve req) \<and>
         (\<forall>p \<in> set (slot_to_groups (scheduled_groups req)). \<not> unsolved solve (rooms req) p)"
  using distribute_slots_success [OF sound res [unfolded distribute_groups_def]]
  by (simp add: room_pairs_def)

lemma room_pairs_compatible:
  assumes sound: "solver_sound solve"
    and ok: "\<forall>p \<in> set (slot_to_groups (scheduled_groups req)). \<not> unsolved solve (rooms req) p"
    and p: "p \<in> set (room_pairs solve req)"
  shows "\<exists>r \<in> set (rooms req). room_id r = snd p \<and> compatible (fst p) r"
proof -
  from p obtain sl where sl: "sl \<in> set (slot_to_groups (scheduled_groups req))"
    "p \<in> set (slot_pairs solve (rooms req) (snd sl))" by (auto simp: room_pairs_def)
  from ok sl(1) have "\<not> unsolved solve (rooms req) sl" by blast
  from solved_slot_satisfies [OF sound this] sl(2) show ?thesis
    by (rule slot_pairs_compatible)
qed

lemma room_pairs_slot_distinct:
  assumes sound: "solver_sound solve"
    and ok: "\<forall>p \<in> set (slot_to_groups (scheduled_groups req)). \<not> unsolved solve (rooms req) p"
  shows "distinct (map snd (filter (\<lambda>p. slot_key (fst p) = dt) (room_pairs solve req)))"
proof -
  let ?ps = "slot_to_groups (scheduled_groups req)"
  have "filter (\<lambda>p. slot_key (fst p) = dt) (room_pairs solve req) =
      (case map_of ?ps dt of None \<Rightarrow> [] | Some gs \<Rightarrow> slot_pairs solve (rooms req) gs)"
    unfolding room_pairs_def
  proof (rule filter_keyed_concat [OF slot_to_groups_distinct])
    fix k gs x
    assume m: "(k, gs) \<in> set ?ps" and x: "x \<in> set (slot_pairs solve (rooms req) gs)"
    from x have "fst x \<in> set gs" by (auto simp: slot_pairs_def)
    with m show "slot_key (fst x) = k" by (rule slot_to_groups_keyed)
  qed
  moreover have "\<And>gs. map_of ?ps dt = Some gs \<Longrightarrow>
      distinct (map snd (slot_pairs solve (rooms req) gs))"
  proof -
    fix gs assume "map_of ?ps dt = Some gs"
    then have "(dt, gs) \<in> set ?ps" by (rule map_of_SomeD)
    with ok have "\<not> unsolved solve (rooms req) (dt, gs)" by blast
    from solved_slot_satisfies [OF sound this] show
      "distinct (map snd (slot_pairs solve (rooms req) gs))"
      by (simp add: slot_pairs_distinct_rooms)
  qed
  ultimately show ?thesis by (cases "map_of ?ps dt") auto
qed

lemma room_model_vars:
  "k \<in> set (bool_vars (room_model gs rs)) \<longleftrightarrow>
     (\<exists>g \<in> set gs. \<exists>r \<in> set rs. compatible g r \<and> k = (sg_id g, room_id r))"
  by (simp add: room_model_def Let_def y_keys_iff y_key_def)

lemma room_model_constraint_vars:
  "c \<in> set (constraints (room_model gs rs)) \<Longrightarrow>
   set (constraint_vars c) \<subseteq> set (bool_vars (room_model gs rs))"
  by (auto simp: room_model_def Let_def one_room_def one_group_def)

section \<open>The room assigned to a group\<close>

lemma dict_append_map_of:
  "map_of (dict_append d k v) =
     (map_of d)(k \<mapsto> (case map_of d k of None \<Rightarrow> [] | Some vs \<Rightarrow> vs) @ [v])"
  by (induction d) (auto simp: fun_eq_iff)

lemma slot_fold_map_of:
  "map_of (foldl (\<lambda>d g. dict_append d (slot_key g) g) d sgs) k =
     (if k \<in> slot_key ` set sgs
      then Some ((case map_of d k of None \<Rightarrow> [] | Some vs \<Rightarrow> vs) @
                 filter (\<lambda>g. slot_key g = k) sgs)
      else map_of d k)"
proof (induction sgs arbitrary: d)
  case Nil
  then show ?case by simp
next
  case (Cons g sgs)
  let ?f = "\<lambda>d g. dict_append d (slot_key g) g"
  let ?d = "dict_append d (slot_key g) g"
  have "map_of (foldl ?f d (g # sgs)) k = map_of (foldl ?f ?d sgs) k" by simp
  also have "\<dots> = (if k \<in> slot_key ` set sgs
      then Some ((case map_of ?d k of None \<Rightarrow> [] | Some vs \<Rightarrow> vs) @
                 filter (\<lambda>g. slot_key g = k) sgs)
      else map_of ?d k)" by (rule Cons.IH)
  also have "\<dots> = (if k \<in> slot_key ` set (g # sgs)
      then Some ((case map_of d k of None \<Rightarrow> [] | Some vs \<Rightarrow> vs) @
                 filter (\<lambda>g. slot_key g = k) (g # sgs))
      else map_of d k)"
  proof (cases "slot_key g = k")
    case True
    have "k \<notin> slot_key ` set sgs \<Longrightarrow> filter (\<lambda>g. slot_key g = k) sgs = []"
      by (auto simp: filter_empty_conv)
    with True show ?thesis by (auto simp: dict_append_map_of split: option.splits)
  next
    case False
    then show ?thesis by (auto simp: dict_append_map_of)
  qed
  finally show ?case .
qed

lemma slot_to_groups_filter:
  assumes "(k, gs) \<in> set (slot_to_groups sgs)"
  shows "gs = filter (\<lambda>g. slot_key g = k) sgs"
proof -
  from assms slot_to_groups_distinct [of sgs] have "map_of (slot_to_groups sgs) k = Some gs"
    by simp
  then show ?thesis
    unfolding slot_to_groups_def slot_fold_map_of by (simp split: if_splits)
qed

lemma room_pairs_assigned:
  assumes sound: "solver_sound solve"
    and ok: "\<forall>p \<in> set (slot_to_groups (scheduled_groups req)). \<not> unsolved solve (rooms req) p"
    and p: "p \<in> set (room_pairs solve req)"
  shows "\<exists>r \<in> set (rooms req). snd p = room_id r \<and>
           (sg_id (fst p), room_id r) \<in> set (bool_vars (room_model
              (filter (\<lambda>h. slot_key h = slot_key (fst p)) (scheduled_groups req)) (rooms req))) \<and>
           snd (solve (room_model
              (filter (\<lambda>h. slot_key h = slot_key (fst p)) (scheduled_groups req)) (rooms req)))
             (sg_id (fst p), room_id r) = 1 \<and>
           (\<forall>r' \<in> set (rooms req).
              (sg_id (fst p), room_id r') \<in> set (bool_vars (room_model
                 (filter (\<lambda>h. slot_key h = slot_key (fst p)) (scheduled_groups req)) (rooms req))) \<and>
              snd (solve (room_model
                 (filter (\<lambda>h. slot_key h = slot_key (fst p)) (scheduled_groups req)) (rooms req)))
                (sg_id (fst p), room_id r') = 1 \<longrightarrow> room_id r' = snd p)"
proof -
  let ?rs = "rooms req"
  from p obtain sl where sl: "sl \<in> set (slot_to_groups (scheduled_groups req))"
    "p \<in> set (slot_pairs solve ?rs (snd sl))" by (auto simp: room_pairs_def)
  obtain k gs where kgs: "sl = (k, gs)" by (cases sl)
  from sl(2) kgs obtain g where g: "g \<in> set gs" "p = (g, the (slot_rooms solve ?rs gs g))"
    by (auto simp: slot_pairs_def)
  from sl(1) kgs g(1) have "slot_key g = k" by (auto intro: slot_to_groups_keyed)
  with sl(1) kgs have gs: "gs = filter (\<lambda>h. slot_key h = slot_key g) (scheduled_groups req)"
    by (auto dest: slot_to_groups_filter)
  let ?val = "snd (solve (room_model gs ?rs))"
  from ok sl(1) have "\<not> unsolved solve ?rs sl" by blast
  from solved_slot_satisfies [OF sound this] kgs
  have sat: "satisfies (room_model gs ?rs) ?val" by simp
  from assigned_room_defined [OF sat g(1)] obtain rid where
    rid: "assigned_room (y_keys gs ?rs) ?rs ?val g = Some rid" by blast
  from assigned_room_Some [OF rid] obtain r where r: "r \<in> set ?rs" "room_id r = rid"
    "y_key g r \<in> set (y_keys gs ?rs)" "?val (y_key g r) = 1" by blast
  have v: "bool_vars (room_model gs ?rs) = y_keys gs ?rs" by (simp add: room_model_def Let_def)
  have sp: "snd p = rid" "fst p = g" using g(2) rid by (simp_all add: slot_rooms_def)
  have uniq: "\<forall>r' \<in> set ?rs. y_key g r' \<in> set (y_keys gs ?rs) \<and> ?val (y_key g r') = 1
      \<longrightarrow> room_id r' = rid"
  proof (intro ballI impI)
    fix r' assume r': "r' \<in> set ?rs"
      and q: "y_key g r' \<in> set (y_keys gs ?rs) \<and> ?val (y_key g r') = 1"
    have le: "length (filter (\<lambda>r. y_key g r \<in> set (y_keys gs ?rs) \<and> ?val (y_key g r) = 1) ?rs) \<le> 1"
      using room_count [OF sat g(1)] by simp
    have qr: "y_key g r \<in> set (y_keys gs ?rs) \<and> ?val (y_key g r) = 1" using r(3,4) by simp
    from le r' r(1) q qr have "r' = r" by (rule filter_le_one_unique)
    with r(2) show "room_id r' = rid" by simp
  qed
  have M: "room_model (filter (\<lambda>h. slot_key h = slot_key (fst p)) (scheduled_groups req)) ?rs =
      room_model gs ?rs" unfolding sp(2) gs [symmetric] ..
  show ?thesis unfolding M v
  proof (intro bexI [of _ r] conjI)
    show "snd p = room_id r" using sp(1) r(2) by simp
    show "(sg_id (fst p), room_id r) \<in> set (y_keys gs ?rs)"
      using r(3) unfolding sp(2) y_key_def .
    show "?val (sg_id (fst p), room_id r) = 1"
      using r(4) unfolding sp(2) y_key_def .
    show "\<forall>r' \<in> set ?rs.
        (sg_id (fst p), room_id r') \<in> set (y_keys gs ?rs) \<and>
        ?val (sg_id (fst p), room_id r') = 1 \<longrightarrow> room_id r' = snd p"
      using uniq unfolding sp y_key_def .
    show "r \<in> set ?rs" by (rule r(1))
  qed
qed

section \<open>The room examples, evaluated\<close>

lemmas campus_defs = sg_algebra_def sg_logic_def sg_physics_def sg_crowd_def
  slot_mon_8_def slot_tue_10_def campus_rooms_def campus_val_def
  slot_to_groups_def slot_key_def room_model_def y_keys_def y_key_def compatible_def
  one_room_def one_group_def satisfies_def lin_sum_def check_solver_def has_solution_def
  assigned_room_def distributed_entry_def distribute_groups_def distribute_slots.simps
  unsolved_def

lemma campus_result:
  "distribute_groups (check_solver campus_val) campus_request =
     Inr [distributed_entry sg_algebra ''R1'', distributed_entry sg_logic ''R2'',
          distributed_entry sg_physics ''R1'']"
  by (simp add: campus_request_def campus_defs Let_def)

lemma single_result:
  "distribute_groups (check_solver campus_val) single_request =
     Inr [[(''id'', StrV ''G1''), (''slot'', SlotV slot_mon_8), (''number_size'', IntV 30),
           (''type'', IntV 0), (''roomId'', StrV ''R1'')]]"
  by (simp add: single_request_def campus_defs Let_def)

lemma crowded_result:
  "distribute_groups (check_solver campus_val) crowded_request =
     Inl (NoFeasibleRoomAssignment ''D2'' ''T2'')"
  by (simp add: crowded_request_def campus_defs Let_def)

lemma campus_slots:
  "slot_to_groups (scheduled_groups campus_request) =
     [((''D1'', ''T1''), [sg_algebra, sg_logic]), ((''D2'', ''T2''), [sg_physics])]"
  by (simp add: campus_request_def slot_to_groups_def slot_key_def sg_algebra_def sg_logic_def
      sg_physics_def slot_mon_8_def slot_tue_10_def)

lemma campus_vars:
  "bool_vars (room_model [sg_algebra, sg_logic] campus_rooms) =
     [(''G1'', ''R1''), (''G2'', ''R1''), (''G2'', ''R2'')]"
  by (simp add: room_model_def Let_def y_keys_def y_key_def compatible_def campus_rooms_def
      sg_algebra_def sg_logic_def)

lemma check_solver_values: "snd (check_solver val m) = val"
  by (simp add: check_solver_def)

section \<open>Properties of distribute\_groups\<close>

text \<open>
  Claim C3. When distribute_groups succeeds (with a solver whose solutions satisfy the
  model), the output is one entry per input ScheduledGroup: the groups of the entries, in
  output order, are a rearrangement of the input list, each once; and each entry's roomId
  is the id of a room of the request whose capacity is at least the group's students_count
  and whose course_type is the group's type. In every slot's model the decision variables
  are exactly the keys (group id, room id) of the compatible (group, room) pairs of that
  slot, no constraint mentions any other variable, and for every group of the slot the
  model holds the constraint that the group's variables, over the rooms for which it has
  one, sum to 1.
\<close>

theorem every_group_gets_compatible_room:
  assumes sound: "solver_sound solve" and res: "distribute_groups solve req = Inr out"
  shows "(\<exists>pairs. out = map (\<lambda>p. distributed_entry (fst p) (snd p)) pairs \<and>
            mset (map fst pairs) = mset (scheduled_groups req) \<and>
            (\<forall>p \<in> set pairs. \<exists>r \<in> set (rooms req). room_id r = snd p \<and>
               students_count (fst p) \<le> capacity r \<and> course_type r = sg_type (fst p))) \<and>
         (\<forall>sl \<in> set (slot_to_groups (scheduled_groups req)).
            (\<forall>k \<in> set (bool_vars (room_model (snd sl) (rooms req))).
               \<exists>g \<in> set (snd sl). \<exists>r \<in> set (rooms req). k = (sg_id g, room_id r) \<and>
                 students_count g \<le> capacity r \<and> course_type r = sg_type g) \<and>
            (\<forall>c \<in> set (constraints (room_model (snd sl) (rooms req))).
               set (constraint_vars c) \<subseteq> set (bool_vars (room_model (snd sl) (rooms req)))) \<and>
            (\<forall>g \<in> set (snd sl). \<forall>r \<in> set (rooms req).
               students_count g \<le> capacity r \<and> course_type r = sg_type g \<longrightarrow>
               (sg_id g, room_id r) \<in> set (bool_vars (room_model (snd sl) (rooms req)))) \<and>
            (\<forall>g \<in> set (snd sl).
               SumEq (map (\<lambda>r. (1, (sg_id g, room_id r)))
                       (filter (\<lambda>r. (sg_id g, room_id r)
                                    \<in> set (bool_vars (room_model (snd sl) (rooms req))))
                          (rooms req))) 1
                 \<in> set (constraints (room_model (snd sl) (rooms req)))))"
proof -
  from distribute_groups_success [OF sound res] have
    out: "out = map entry_of_pair (room_pairs solve req)" and
    ok: "\<forall>p \<in> set (slot_to_groups (scheduled_groups req)). \<not> unsolved solve (rooms req) p"
    by auto
  have a: "out = map (\<lambda>p. distributed_entry (fst p) (snd p)) (room_pairs solve req)"
    using out by (simp add: entry_of_pair_def [abs_def])
  have b: "mset (map fst (room_pairs solve req)) = mset (scheduled_groups req)"
    by (rule room_pairs_mset)
  have c: "\<forall>p \<in> set (room_pairs solve req). \<exists>r \<in> set (rooms req). room_id r = snd p \<and>
               students_count (fst p) \<le> capacity r \<and> course_type r = sg_type (fst p)"
    using room_pairs_compatible [OF sound ok] by (simp add: compatible_def)
  have d: "\<forall>sl \<in> set (slot_to_groups (scheduled_groups req)).
            (\<forall>k \<in> set (bool_vars (room_model (snd sl) (rooms req))).
               \<exists>g \<in> set (snd sl). \<exists>r \<in> set (rooms req). k = (sg_id g, room_id r) \<and>
                 students_count g \<le> capacity r \<and> course_type r = sg_type g) \<and>
            (\<forall>c \<in> set (constraints (room_model (snd sl) (rooms req))).
               set (constraint_vars c) \<subseteq> set (bool_vars (room_model (snd sl) (rooms req)))) \<and>
            (\<forall>g \<in> set (snd sl). \<forall>r \<in> set (rooms req).
               students_count g \<le> capacity r \<and> course_type r = sg_type g \<longrightarrow>
               (sg_id g, room_id r) \<in> set (bool_vars (room_model (snd sl) (rooms req)))) \<and>
            (\<forall>g \<in> set (snd sl).
               SumEq (map (\<lambda>r. (1, (sg_id g, room_id r)))
                       (filter (\<lambda>r. (sg_id g, room_id r)
                                    \<in> set (bool_vars (room_model (snd sl) (rooms req))))
                          (rooms req))) 1
                 \<in> set (constraints (room_model (snd sl) (rooms req))))"
  proof (intro ballI conjI impI)
    fix sl k
    assume "k \<in> set (bool_vars (room_model (snd sl) (rooms req)))"
    then obtain g r where "g \<in> set (snd sl)" "r \<in> set (rooms req)" "compatible g r"
      "k = (sg_id g, room_id r)" unfolding room_model_vars by blast
    then show "\<exists>g \<in> set (snd sl). \<exists>r \<in> set (rooms req). k = (sg_id g, room_id r) \<and>
                 students_count g \<le> capacity r \<and> course_type r = sg_type g"
      unfolding compatible_def by blast
  next
    fix sl c
    assume "c \<in> set (constraints (room_model (snd sl) (rooms req)))"
    then show "set (constraint_vars c) \<subseteq> set (bool_vars (room_model (snd sl) (rooms req)))"
      by (rule room_model_constraint_vars)
  next
    fix sl :: "(string \<times> string) \<times> scheduled_group list" and g and r :: room
    assume "g \<in> set (snd sl)" "r \<in> set (rooms req)"
      "students_count g \<le> capacity r \<and> course_type r = sg_type g"
    then show "(sg_id g, room_id r) \<in> set (bool_vars (room_model (snd sl) (rooms req)))"
      unfolding room_model_vars compatible_def by blast
  next
    fix sl :: "(string \<times> string) \<times> scheduled_group list" and g
    assume g: "g \<in> set (snd sl)"
    have v: "bool_vars (room_model (snd sl) (rooms req)) = y_keys (snd sl) (rooms req)"
      by (simp add: room_model_def Let_def)
    have "one_room (y_keys (snd sl) (rooms req)) (rooms req) g
        \<in> set (constraints (room_model (snd sl) (rooms req)))"
      using g by (simp add: room_model_def Let_def)
    then show "SumEq (map (\<lambda>r. (1, (sg_id g, room_id r)))
                       (filter (\<lambda>r. (sg_id g, room_id r)
                                    \<in> set (bool_vars (room_model (snd sl) (rooms req))))
                          (rooms req))) 1
                 \<in> set (constraints (room_model (snd sl) (rooms req)))"
      unfolding v one_room_def y_key_def .
  qed
  from a b c d show ?thesis by blast
qed

text \<open>The theorem at a request of three groups in two slots and three rooms.\<close>

theorem every_group_gets_compatible_room_witness:
  "solver_sound (check_solver campus_val) \<and>
   distribute_groups (check_solver campus_val) campus_request =
     Inr [distributed_entry sg_algebra ''R1'', distributed_entry sg_logic ''R2'',
          distributed_entry sg_physics ''R1''] \<and>
   (\<exists>pairs. [distributed_entry sg_algebra ''R1'', distributed_entry sg_logic ''R2'',
             distributed_entry sg_physics ''R1''] =
               map (\<lambda>p. distributed_entry (fst p) (snd p)) pairs \<and>
            mset (map fst pairs) = mset (scheduled_groups campus_request) \<and>
            (\<forall>p \<in> set pairs. \<exists>r \<in> set (rooms campus_request). room_id r = snd p \<and>
               students_count (fst p) \<le> capacity r \<and> course_type r = sg_type (fst p))) \<and>
   ((''D1'', ''T1''), [sg_algebra, sg_logic])
     \<in> set (slot_to_groups (scheduled_groups campus_request)) \<and>
   bool_vars (room_model [sg_algebra, sg_logic] campus_rooms) =
     [(''G1'', ''R1''), (''G2'', ''R1''), (''G2'', ''R2'')] \<and>
   SumEq [(1, (''G2'', ''R1'')), (1, (''G2'', ''R2''))] 1
     \<in> set (constraints (room_model [sg_algebra, sg_logic] campus_rooms)) \<and>
   SumEq [(1, (''G1'', ''R1''))] 1
     \<in> set (constraints (room_model [sg_algebra, sg_logic] campus_rooms))"
proof -
  have s: "solver_sound (check_solver campus_val)" by (rule check_solver_sound)
  have r: "distribute_groups (check_solver campus_val) campus_request =
     Inr [distributed_entry sg_algebra ''R1'', distributed_entry sg_logic ''R2'',
          distributed_entry sg_physics ''R1'']" by (rule campus_result)
  note t = every_group_gets_compatible_room [OF s r]
  have m: "((''D1'', ''T1''), [sg_algebra, sg_logic])
     \<in> set (slot_to_groups (scheduled_groups campus_request))" by (simp add: campus_slots)
  have rs: "rooms campus_request = campus_rooms" by (simp add: campus_request_def)
  from t m have "\<forall>g \<in> set [sg_algebra, sg_logic].
      SumEq (map (\<lambda>r. (1, (sg_id g, room_id r)))
              (filter (\<lambda>r. (sg_id g, room_id r)
                 \<in> set (bool_vars (room_model [sg_algebra, sg_logic] campus_rooms))) campus_rooms)) 1
        \<in> set (constraints (room_model [sg_algebra, sg_logic] campus_rooms))"
    unfolding rs by fastforce
  then have c: "SumEq [(1, (''G2'', ''R1'')), (1, (''G2'', ''R2''))] 1
     \<in> set (constraints (room_model [sg_algebra, sg_logic] campus_rooms))"
    "SumEq [(1, (''G1'', ''R1''))] 1
     \<in> set (constraints (room_model [sg_algebra, sg_logic] campus_rooms))"
    unfolding campus_vars by (simp_all add: campus_rooms_def sg_algebra_def sg_logic_def)
  from t s r m c campus_vars show ?thesis by blast
qed

text \<open>
  Claim C4. In a successful output, the entries of any one slot (dayId, timeId) carry
  pairwise different roomIds. Each slot's model holds, for every room of the request, the
  constraint that the sum of the variables of that room over the groups of the slot is at
  most 1.
\<close>

theorem no_room_shared_within_slot:
  assumes sound: "solver_sound solve" and res: "distribute_groups solve req = Inr out"
  shows "distinct (map entry_room (filter (\<lambda>e. entry_slot e = Some dt) out)) \<and>
         (\<forall>sl \<in> set (slot_to_groups (scheduled_groups req)). \<forall>r \<in> set (rooms req).
            SumLe (map (\<lambda>g. (1, (sg_id g, room_id r)))
                    (filter (\<lambda>g. (sg_id g, room_id r)
                                 \<in> set (bool_vars (room_model (snd sl) (rooms req)))) (snd sl))) 1
              \<in> set (constraints (room_model (snd sl) (rooms req))))"
proof -
  from distribute_groups_success [OF sound res] have
    out: "out = map entry_of_pair (room_pairs solve req)" and
    ok: "\<forall>p \<in> set (slot_to_groups (scheduled_groups req)). \<not> unsolved solve (rooms req) p"
    by auto
  have "map entry_room (filter (\<lambda>e. entry_slot e = Some dt) out) =
      map (\<lambda>p. Some (StrV (snd p))) (filter (\<lambda>p. slot_key (fst p) = dt) (room_pairs solve req))"
    unfolding out by (simp add: filter_map o_def entry_room_pair entry_slot_pair)
  also have "\<dots> = map (\<lambda>rid. Some (StrV rid))
      (map snd (filter (\<lambda>p. slot_key (fst p) = dt) (room_pairs solve req)))"
    by (simp add: o_def)
  finally have e: "map entry_room (filter (\<lambda>e. entry_slot e = Some dt) out) =
      map (\<lambda>rid. Some (StrV rid))
        (map snd (filter (\<lambda>p. slot_key (fst p) = dt) (room_pairs solve req)))" .
  have dd: "distinct (map snd (filter (\<lambda>p. slot_key (fst p) = dt) (room_pairs solve req)))"
    by (rule room_pairs_slot_distinct [OF sound ok])
  have "distinct (map (\<lambda>rid. Some (StrV rid))
      (map snd (filter (\<lambda>p. slot_key (fst p) = dt) (room_pairs solve req))))"
    by (rule iffD2 [OF distinct_map, OF conjI [OF dd]]) (simp add: inj_on_def)
  then have a: "distinct (map entry_room (filter (\<lambda>e. entry_slot e = Some dt) out))"
    unfolding e .
  have b: "\<forall>sl \<in> set (slot_to_groups (scheduled_groups req)). \<forall>r \<in> set (rooms req).
            SumLe (map (\<lambda>g. (1, (sg_id g, room_id r)))
                    (filter (\<lambda>g. (sg_id g, room_id r)
                                 \<in> set (bool_vars (room_model (snd sl) (rooms req)))) (snd sl))) 1
              \<in> set (constraints (room_model (snd sl) (rooms req)))"
  proof (intro ballI)
    fix sl r assume r: "r \<in> set (rooms req)"
    have v: "bool_vars (room_model (snd sl) (rooms req)) = y_keys (snd sl) (rooms req)"
      by (simp add: room_model_def Let_def)
    have "one_group (y_keys (snd sl) (rooms req)) (snd sl) r
        \<in> set (constraints (room_model (snd sl) (rooms req)))"
      using r by (simp add: room_model_def Let_def)
    then show "SumLe (map (\<lambda>g. (1, (sg_id g, room_id r)))
                    (filter (\<lambda>g. (sg_id g, room_id r)
                                 \<in> set (bool_vars (room_model (snd sl) (rooms req)))) (snd sl))) 1
              \<in> set (constraints (room_model (snd sl) (rooms req)))"
      unfolding v one_group_def y_key_def .
  qed
  from a b show ?thesis by simp
qed

text \<open>
  The theorem at the same request: the two groups of Monday 08:00 get R1 and R2, while
  the group of Tuesday 10:00 gets R1 again.
\<close>

theorem no_room_shared_within_slot_witness:
  "solver_sound (check_solver campus_val) \<and>
   distribute_groups (check_solver campus_val) campus_request =
     Inr [distributed_entry sg_algebra ''R1'', distributed_entry sg_logic ''R2'',
          distributed_entry sg_physics ''R1''] \<and>
   map entry_room (filter (\<lambda>e. entry_slot e = Some (''D1'', ''T1''))
     [distributed_entry sg_algebra ''R1'', distributed_entry sg_logic ''R2'',
      distributed_entry sg_physics ''R1'']) = [Some (StrV ''R1''), Some (StrV ''R2'')] \<and>
   distinct (map entry_room (filter (\<lambda>e. entry_slot e = Some (''D1'', ''T1''))
     [distributed_entry sg_algebra ''R1'', distributed_entry sg_logic ''R2'',
      distributed_entry sg_physics ''R1'']))"
proof -
  have s: "solver_sound (check_solver campus_val)" by (rule check_solver_sound)
  have r: "distribute_groups (check_solver campus_val) campus_request =
     Inr [distributed_entry sg_algebra ''R1'', distributed_entry sg_logic ''R2'',
          distributed_entry sg_physics ''R1'']" by (rule campus_result)
  have e: "map entry_room (filter (\<lambda>e. entry_slot e = Some (''D1'', ''T1''))
     [distributed_entry sg_algebra ''R1'', distributed_entry sg_logic ''R2'',
      distributed_entry sg_physics ''R1'']) = [Some (StrV ''R1''), Some (StrV ''R2'')]"
    by (simp add: entry_room_def entry_slot_def distributed_entry_def sg_algebra_def
        sg_logic_def sg_physics_def slot_mon_8_def slot_tue_10_def)
  from no_room_shared_within_slot [OF s r, of "(''D1'', ''T1'')"] s r e show ?thesis by blast
qed

text \<open>
  Claim C8. If the solver returns a status other than OPTIMAL or FEASIBLE for a slot, the
  request fails: the solve of the first such slot in iteration order ends the loop (no
  later slot is solved), the error carries that slot's dayId and timeId, and the entries
  already collected for the slots before it are not returned.
\<close>

theorem unsolved_slot_fails_request:
  assumes sound: "solver_sound solve"
    and sl: "sl \<in> set (slot_to_groups (scheduled_groups req))"
    and un: "unsolved solve (rooms req) sl"
  shows "\<exists>dt gs. find (unsolved solve (rooms req)) (slot_to_groups (scheduled_groups req))
                   = Some (dt, gs) \<and>
                 distribute_groups solve req = Inl (NoFeasibleRoomAssignment (fst dt) (snd dt))"
proof -
  from sl un have "find (unsolved solve (rooms req)) (slot_to_groups (scheduled_groups req)) \<noteq> None"
    unfolding find_None_iff by blast
  then obtain dt gs where f: "find (unsolved solve (rooms req))
      (slot_to_groups (scheduled_groups req)) = Some (dt, gs)" by fastforce
  from distribute_slots_unsolved [OF sound f] f show ?thesis
    by (auto simp: distribute_groups_def)
qed

text \<open>
  The theorem at a request whose first slot is solved and whose second slot has a group of
  100 students and no room that large.
\<close>

theorem unsolved_slot_fails_request_witness:
  "solver_sound (check_solver campus_val) \<and>
   ((''D2'', ''T2''), [sg_crowd]) \<in> set (slot_to_groups (scheduled_groups crowded_request)) \<and>
   \<not> unsolved (check_solver campus_val) (rooms crowded_request) ((''D1'', ''T1''), [sg_algebra]) \<and>
   unsolved (check_solver campus_val) (rooms crowded_request) ((''D2'', ''T2''), [sg_crowd]) \<and>
   distribute_groups (check_solver campus_val) crowded_request =
     Inl (NoFeasibleRoomAssignment ''D2'' ''T2'')"
proof -
  have s: "solver_sound (check_solver campus_val)" by (rule check_solver_sound)
  have m: "((''D2'', ''T2''), [sg_crowd]) \<in> set (slot_to_groups (scheduled_groups crowded_request))"
    by (simp add: crowded_request_def campus_defs)
  have u: "unsolved (check_solver campus_val) (rooms crowded_request) ((''D2'', ''T2''), [sg_crowd])"
    by (simp add: crowded_request_def campus_defs Let_def)
  have n: "\<not> unsolved (check_solver campus_val) (rooms crowded_request) ((''D1'', ''T1''), [sg_algebra])"
    by (simp add: crowded_request_def campus_defs Let_def)
  from unsolved_slot_fails_request [OF s m u] s m u n crowded_result show ?thesis by blast
qed

text \<open>
  Claim C9, as the spec states it, fails: the entry built for a group carries the group's
  students_count under the key number_size, and has no key for the group's code.
\<close>

theorem room_entry_passthrough_counterexample:
  "distribute_groups (check_solver campus_val) single_request =
     Inr [[(''id'', StrV ''G1''), (''slot'', SlotV slot_mon_8), (''number_size'', IntV 30),
           (''type'', IntV 0), (''roomId'', StrV ''R1'')]] \<and>
   scheduled_groups single_request = [sg_algebra] \<and>
   sg_code sg_algebra = ''MA101'' \<and> students_count sg_algebra = 30 \<and>
   map_of [(''id'', StrV ''G1''), (''slot'', SlotV slot_mon_8), (''number_size'', IntV 30),
           (''type'', IntV 0), (''roomId'', StrV ''R1'')] ''students_count'' = None \<and>
   map_of [(''id'', StrV ''G1''), (''slot'', SlotV slot_mon_8), (''number_size'', IntV 30),
           (''type'', IntV 0), (''roomId'', StrV ''R1'')] ''code'' = None"
  using single_result by (simp add: single_request_def sg_algebra_def)

text \<open>
  Claim C9 as amended. A successful output has one entry per input ScheduledGroup: the
  entries are, in output order, those of a list of (group, room id) pairs whose groups are
  a rearrangement of the input list. The entry of a pair is exactly the five keys id, slot,
  number_size, type and roomId, holding the group's id, slot, students_count and type and
  the pair's room id; and that room id is the id of the room assigned to the group: a room
  of the request whose variable for the group has the value 1 in the solution of the model
  of the group's slot (the groups with the same dayId and timeId), every room with such a
  variable of value 1 having that same id.
\<close>

theorem room_entry_fields:
  assumes sound: "solver_sound solve" and res: "distribute_groups solve req = Inr out"
  shows "length out = length (scheduled_groups req) \<and>
         (\<exists>pairs.
            out = map (\<lambda>p. [(''id'', StrV (sg_id (fst p))), (''slot'', SlotV (slot (fst p))),
                             (''number_size'', IntV (students_count (fst p))),
                             (''type'', IntV (sg_type (fst p))),
                             (''roomId'', StrV (snd p))]) pairs \<and>
            mset (map fst pairs) = mset (scheduled_groups req) \<and>
            (\<forall>p \<in> set pairs. \<exists>r \<in> set (rooms req). snd p = room_id r \<and>
               (sg_id (fst p), room_id r) \<in> set (bool_vars (room_model
                  (filter (\<lambda>h. slot_key h = slot_key (fst p)) (scheduled_groups req)) (rooms req))) \<and>
               snd (solve (room_model
                  (filter (\<lambda>h. slot_key h = slot_key (fst p)) (scheduled_groups req)) (rooms req)))
                 (sg_id (fst p), room_id r) = 1 \<and>
               (\<forall>r' \<in> set (rooms req).
                  (sg_id (fst p), room_id r') \<in> set (bool_vars (room_model
                     (filter (\<lambda>h. slot_key h = slot_key (fst p)) (scheduled_groups req))
                     (rooms req))) \<and>
                  snd (solve (room_model
                     (filter (\<lambda>h. slot_key h = slot_key (fst p)) (scheduled_groups req))
                     (rooms req)))
                    (sg_id (fst p), room_id r') = 1 \<longrightarrow> room_id r' = snd p)))"
proof -
  from distribute_groups_success [OF sound res] have
    out: "out = map entry_of_pair (room_pairs solve req)" and
    ok: "\<forall>p \<in> set (slot_to_groups (scheduled_groups req)). \<not> unsolved solve (rooms req) p"
    by auto
  have "length out = length (map fst (room_pairs solve req))" using out by simp
  also have "\<dots> = size (mset (map fst (room_pairs solve req)))" by simp
  also have "\<dots> = length (scheduled_groups req)" unfolding room_pairs_mset by simp
  finally have a: "length out = length (scheduled_groups req)" .
  have b: "out = map (\<lambda>p. [(''id'', StrV (sg_id (fst p))), (''slot'', SlotV (slot (fst p))),
                             (''number_size'', IntV (students_count (fst p))),
                             (''type'', IntV (sg_type (fst p))),
                             (''roomId'', StrV (snd p))]) (room_pairs solve req)"
    using out by (simp add: entry_of_pair_def [abs_def] distributed_entry_def)
  have c: "mset (map fst (room_pairs solve req)) = mset (scheduled_groups req)"
    by (rule room_pairs_mset)
  note d = room_pairs_assigned [OF sound ok]
  from a b c d show ?thesis by blast
qed

text \<open>The theorem at the request of three groups.\<close>

theorem room_entry_fields_witness:
  "solver_sound (check_solver campus_val) \<and>
   distribute_groups (check_solver campus_val) campus_request =
     Inr [distributed_entry sg_algebra ''R1'', distributed_entry sg_logic ''R2'',
          distributed_entry sg_physics ''R1''] \<and>
   length [distributed_entry sg_algebra ''R1'', distributed_entry sg_logic ''R2'',
          distributed_entry sg_physics ''R1''] = length (scheduled_groups campus_request) \<and>
   [distributed_entry sg_algebra ''R1'', distributed_entry sg_logic ''R2'',
    distributed_entry sg_physics ''R1''] =
     map (\<lambda>p. [(''id'', StrV (sg_id (fst p))), (''slot'', SlotV (slot (fst p))),
                (''number_size'', IntV (students_count (fst p))),
                (''type'', IntV (sg_type (fst p))), (''roomId'', StrV (snd p))])
       [(sg_algebra, ''R1''), (sg_logic, ''R2''), (sg_physics, ''R1'')] \<and>
   distributed_entry sg_logic ''R2'' =
     [(''id'', StrV ''G2''), (''slot'', SlotV slot_mon_8), (''number_size'', IntV 20),
      (''type'', IntV 0), (''roomId'', StrV ''R2'')] \<and>
   filter (\<lambda>h. slot_key h = slot_key sg_logic) (scheduled_groups campus_request) =
     [sg_algebra, sg_logic] \<and>
   snd (check_solver campus_val (room_model [sg_algebra, sg_logic] (rooms campus_request)))
     (''G2'', ''R2'') = 1 \<and>
   snd (check_solver campus_val (room_model [sg_algebra, sg_logic] (rooms campus_request)))
     (''G2'', ''R1'') = 0"
proof -
  have s: "solver_sound (check_solver campus_val)" by (rule check_solver_sound)
  have r: "distribute_groups (check_solver campus_val) campus_request =
     Inr [distributed_entry sg_algebra ''R1'', distributed_entry sg_logic ''R2'',
          distributed_entry sg_physics ''R1'']" by (rule campus_result)
  from room_entry_fields [OF s r] have l:
    "length [distributed_entry sg_algebra ''R1'', distributed_entry sg_logic ''R2'',
          distributed_entry sg_physics ''R1''] = length (scheduled_groups campus_request)"
    by blast
  have m: "[distributed_entry sg_algebra ''R1'', distributed_entry sg_logic ''R2'',
    distributed_entry sg_physics ''R1''] =
     map (\<lambda>p. [(''id'', StrV (sg_id (fst p))), (''slot'', SlotV (slot (fst p))),
                (''number_size'', IntV (students_count (fst p))),
                (''type'', IntV (sg_type (fst p))), (''roomId'', StrV (snd p))])
       [(sg_algebra, ''R1''), (sg_logic, ''R2''), (sg_physics, ''R1'')]"
    by (simp add: distributed_entry_def)
  have e: "distributed_entry sg_logic ''R2'' =
     [(''id'', StrV ''G2''), (''slot'', SlotV slot_mon_8), (''number_size'', IntV 20),
      (''type'', IntV 0), (''roomId'', StrV ''R2'')]"
    by (simp add: distributed_entry_def sg_logic_def)
  have f: "filter (\<lambda>h. slot_key h = slot_key sg_logic) (scheduled_groups campus_request) =
     [sg_algebra, sg_logic]"
    by (simp add: campus_request_def slot_key_def sg_algebra_def sg_logic_def sg_physics_def
        slot_mon_8_def slot_tue_10_def)
  have v: "snd (check_solver campus_val (room_model [sg_algebra, sg_logic] (rooms campus_request)))
     (''G2'', ''R2'') = 1"
    "snd (check_solver campus_val (room_model [sg_algebra, sg_logic] (rooms campus_request)))
     (''G2'', ''R1'') = 0"
    by (simp_all add: check_solver_values campus_val_def)
  from s r l m e f v show ?thesis by blast
qed

section \<open>Each session is emitted once\<close>

lemma tt_variables_iff:
  "k \<in> set (tt_variables req) \<longleftrightarrow>
     (\<exists>g \<in> set (groups req). \<exists>s \<in> set (session_range g). \<exists>dt \<in> set (time_slots req).
        k = x_key g s dt)"
  by (auto simp: tt_variables_def)

lemma timetable_bool:
  "satisfies (timetable_model req) val \<Longrightarrow> g \<in> set (groups req) \<Longrightarrow>
   s \<in> set (session_range g) \<Longrightarrow> dt \<in> set (time_slots req) \<Longrightarrow>
   val (x_key g s dt) = 0 \<or> val (x_key g s dt) = 1"
proof -
  assume sat: "satisfies (timetable_model req) val" and m: "g \<in> set (groups req)"
    "s \<in> set (session_range g)" "dt \<in> set (time_slots req)"
  from m have "x_key g s dt \<in> set (tt_variables req)" unfolding tt_variables_iff by blast
  with sat show ?thesis by (simp add: satisfies_def timetable_model_def list_all_iff)
qed

lemma exactly_once_member:
  "g \<in> set (groups req) \<Longrightarrow> s \<in> set (session_range g) \<Longrightarrow>
   exactly_once req g s \<in> set (constraints (timetable_model req))"
  by (auto simp: timetable_model_def constraints1_def)

lemma timetable_exactly_once:
  "satisfies (timetable_model req) val \<Longrightarrow> g \<in> set (groups req) \<Longrightarrow>
   s \<in> set (session_range g) \<Longrightarrow>
   sum_list (map (\<lambda>dt. val (x_key g s dt)) (time_slots req)) = 1"
proof -
  assume sat: "satisfies (timetable_model req) val" and m: "g \<in> set (groups req)"
    "s \<in> set (session_range g)"
  from sat exactly_once_member [OF m] have "holds val (exactly_once req g s)"
    by (simp add: satisfies_def list_all_iff)
  then show ?thesis by (simp add: exactly_once_def lin_sum_unit)
qed

lemma session_entries_one:
  assumes sat: "satisfies (timetable_model req) val" and g: "g \<in> set (groups req)"
    and s: "s \<in> set (session_range g)"
  shows "\<exists>dt \<in> set (time_slots req). val (x_key g s dt) = 1 \<and>
           session_entries req val g s = [schedule_entry req g s dt]"
proof -
  have "sum_list (map (\<lambda>dt. val (x_key g s dt)) (time_slots req)) =
      int (length (filter (\<lambda>dt. val (x_key g s dt) = 1) (time_slots req)))"
    by (rule sum_list_indicator) (rule timetable_bool [OF sat g s])
  with timetable_exactly_once [OF sat g s]
  have "length (filter (\<lambda>dt. val (x_key g s dt) = 1) (time_slots req)) = 1" by simp
  then obtain dt where f: "filter (\<lambda>dt. val (x_key g s dt) = 1) (time_slots req) = [dt]"
    by (auto simp: length_Suc_conv)
  then have "dt \<in> set (filter (\<lambda>dt. val (x_key g s dt) = 1) (time_slots req))" by simp
  then have "dt \<in> set (time_slots req)" "val (x_key g s dt) = 1" by auto
  with f show ?thesis by (auto simp: session_entries_def)
qed

lemma entry_group_session_entry:
  "entry_group_session (schedule_entry req g s dt) = group_session g s"
  by (simp add: entry_group_session_def group_session_def schedule_entry_def)

lemma session_entries_projection:
  assumes sat: "satisfies (timetable_model req) val" and g: "g \<in> set (groups req)"
    and s: "s \<in> set (session_range g)"
  shows "map entry_group_session (session_entries req val g s) = [group_session g s]"
  using session_entries_one [OF sat g s] by (auto simp: entry_group_session_entry)

lemma group_entries_projection:
  assumes sat: "satisfies (timetable_model req) val" and g: "g \<in> set (groups req)"
  shows "map entry_group_session (group_entries req val g) =
           map (group_session g) (session_range g)"
proof -
  have "map entry_group_session (group_entries req val g) =
      concat (map (\<lambda>s. map entry_group_session (session_entries req val g s)) (session_range g))"
    by (simp add: group_entries_def map_concat o_def)
  also have "\<dots> = concat (map (\<lambda>s. [group_session g s]) (session_range g))"
    by (rule arg_cong [where f = concat], rule map_cong [OF refl])
       (rule session_entries_projection [OF sat g])
  also have "\<dots> = map (group_session g) (session_range g)"
    by (induction "session_range g") auto
  finally show ?thesis .
qed

lemma concat_singletons: "concat (map (\<lambda>x. [f x]) xs) = map f xs"
  by (induction xs) auto

lemma collect_schedule_groups:
  "collect_schedule req val = concat (map (group_entries req val) (groups req))"
  by (simp add: collect_schedule_def group_entries_def [abs_def])

lemma collect_schedule_projection:
  assumes sat: "satisfies (timetable_model req) val"
  shows "map entry_group_session (collect_schedule req val) =
           concat (map (\<lambda>g. map (group_session g) (session_range g)) (groups req))"
proof -
  have "map entry_group_session (collect_schedule req val) =
      concat (map (\<lambda>g. map entry_group_session (group_entries req val g)) (groups req))"
    by (simp add: collect_schedule_groups map_concat o_def)
  also have "\<dots> = concat (map (\<lambda>g. map (group_session g) (session_range g)) (groups req))"
    by (rule arg_cong [where f = concat], rule map_cong [OF refl])
       (rule group_entries_projection [OF sat])
  finally show ?thesis .
qed

lemma create_schedule_success:
  assumes sound: "solver_sound solve" and res: "create_schedule solve req = Inr sched"
  shows "missing_teachers req = [] \<and> validation_errors req = [] \<and>
         satisfies (timetable_model req) (snd (solve (timetable_model req))) \<and>
         sched = collect_schedule req (snd (solve (timetable_model req)))"
proof -
  obtain st val where sv: "solve (timetable_model req) = (st, val)"
    by (cases "solve (timetable_model req)")
  from res sv have a: "missing_teachers req = []" "validation_errors req = []"
    "has_solution st" "sched = collect_schedule req val"
    by (auto simp: create_schedule_def split: if_splits)
  from sound sv a(3) have "satisfies (timetable_model req) val"
    by (auto simp: solver_sound_def dest: spec [where x = "timetable_model req"])
  with a sv show ?thesis by simp
qed

section \<open>Hours of an instructor\<close>

lemma sum_list_map_concat:
  "sum_list (map f (concat xss)) = sum_list (map (\<lambda>xs. sum_list (map f xs)) xss)"
  by (induction xss) auto

lemma lin_sum_concat: "lin_sum val (concat tss) = sum_list (map (lin_sum val) tss)"
  by (induction tss) (simp_all add: lin_sum_def)

lemma lin_sum_weighted:
  "lin_sum val (map (\<lambda>x. (w, k x)) xs) = sum_list (map (\<lambda>x. w * val (k x)) xs)"
  by (simp add: lin_sum_def o_def)

lemma sum_list_weighted_indicator:
  "(\<And>x. x \<in> set xs \<Longrightarrow> f x = 0 \<or> f x = (1::int)) \<Longrightarrow>
   sum_list (map (\<lambda>x. w) (filter (\<lambda>x. f x = 1) xs)) = sum_list (map (\<lambda>x. w * f x) xs)"
  by (induction xs) auto

lemma hour_cost_entry: "hour_cost (schedule_entry req g s dt) = hour_weight (group_type g)"
  by (simp add: hour_cost_def schedule_entry_def hour_weight_def)

lemma entry_instructor_entry:
  "entry_instructor (schedule_entry req g s dt) = Some (StrV (instructor g))"
  by (simp add: entry_instructor_def schedule_entry_def)

lemma session_hours:
  assumes sat: "satisfies (timetable_model req) val" and g: "g \<in> set (groups req)"
    and s: "s \<in> set (session_range g)"
  shows "sum_list (map hour_cost (session_entries req val g s)) =
         lin_sum val (map (\<lambda>dt. (hour_weight (group_type g), x_key g s dt)) (time_slots req))"
proof -
  have "sum_list (map hour_cost (session_entries req val g s)) =
      sum_list (map (\<lambda>dt. hour_weight (group_type g))
        (filter (\<lambda>dt. val (x_key g s dt) = 1) (time_slots req)))"
    by (simp add: session_entries_def o_def hour_cost_entry)
  also have "\<dots> = sum_list (map (\<lambda>dt. hour_weight (group_type g) * val (x_key g s dt))
      (time_slots req))"
    by (rule sum_list_weighted_indicator) (rule timetable_bool [OF sat g s])
  finally show ?thesis by (simp add: lin_sum_weighted)
qed

lemma group_hours:
  assumes sat: "satisfies (timetable_model req) val" and g: "g \<in> set (groups req)"
  shows "sum_list (map hour_cost (group_entries req val g)) =
         lin_sum val (concat (map (\<lambda>s.
           map (\<lambda>dt. (hour_weight (group_type g), x_key g s dt)) (time_slots req))
           (session_range g)))"
proof -
  have "sum_list (map hour_cost (group_entries req val g)) =
      sum_list (map (\<lambda>s. sum_list (map hour_cost (session_entries req val g s)))
        (session_range g))"
    by (simp add: group_entries_def sum_list_map_concat o_def)
  also have "\<dots> = sum_list (map (\<lambda>s. lin_sum val
      (map (\<lambda>dt. (hour_weight (group_type g), x_key g s dt)) (time_slots req))) (session_range g))"
    by (rule arg_cong [where f = sum_list], rule map_cong [OF refl])
       (rule session_hours [OF sat g])
  finally show ?thesis by (simp add: lin_sum_concat o_def)
qed

lemma group_entries_instructor:
  "e \<in> set (group_entries req val g) \<Longrightarrow> entry_instructor e = Some (StrV (instructor g))"
  by (auto simp: group_entries_def session_entries_def entry_instructor_entry)

lemma filter_instructor_concat:
  "filter (\<lambda>e. entry_instructor e = Some (StrV inst))
     (concat (map (group_entries req val) gs)) =
   concat (map (group_entries req val) (filter (\<lambda>g. instructor g = inst) gs))"
proof (induction gs)
  case Nil
  then show ?case by simp
next
  case (Cons g gs)
  show ?case
  proof (cases "instructor g = inst")
    case True
    then have "filter (\<lambda>e. entry_instructor e = Some (StrV inst)) (group_entries req val g) =
        group_entries req val g"
      by (auto simp: filter_id_conv group_entries_instructor)
    with True Cons.IH show ?thesis by simp
  next
    case False
    then have "filter (\<lambda>e. entry_instructor e = Some (StrV inst)) (group_entries req val g) = []"
      by (auto simp: filter_empty_conv group_entries_instructor)
    with False Cons.IH show ?thesis by simp
  qed
qed

lemma instructor_hours:
  assumes sat: "satisfies (timetable_model req) val"
  shows "sum_list (map hour_cost
           (filter (\<lambda>e. entry_instructor e = Some (StrV inst)) (collect_schedule req val))) =
         lin_sum val (hour_terms req inst)"
proof -
  let ?gs = "filter (\<lambda>g. instructor g = inst) (groups req)"
  have "sum_list (map hour_cost
           (filter (\<lambda>e. entry_instructor e = Some (StrV inst)) (collect_schedule req val))) =
      sum_list (map (\<lambda>g. sum_list (map hour_cost (group_entries req val g))) ?gs)"
    by (simp add: collect_schedule_groups filter_instructor_concat sum_list_map_concat o_def)
  also have "\<dots> = sum_list (map (\<lambda>g. lin_sum val (concat (map (\<lambda>s.
           map (\<lambda>dt. (hour_weight (group_type g), x_key g s dt)) (time_slots req))
           (session_range g)))) ?gs)"
    by (rule arg_cong [where f = sum_list], rule map_cong [OF refl])
       (rule group_hours [OF sat], simp)
  finally show ?thesis by (simp add: hour_terms_def lin_sum_concat o_def)
qed

lemma hour_budget_member:
  "inst \<in> set (instructors req) \<Longrightarrow> max_hours_dict req inst = Some mh \<Longrightarrow>
   SumLe (hour_terms req inst) mh \<in> set (constraints (timetable_model req))"
  by (auto simp: timetable_model_def constraints6_def intro!: bexI [where x = inst])

lemma instructors_set: "set (instructors req) = instructor ` set (groups req)"
  by (simp add: instructors_def)

section \<open>The timetable example, evaluated\<close>

lemma weekly_session_range: "session_range group_seminar = [0, 1]"
proof -
  have "nat (sessions group_seminar) = Suc (Suc 0)" by (simp add: group_seminar_def)
  then show ?thesis by (simp add: session_range_def)
qed

lemma weekly_time_slots: "time_slots weekly_request = [(''D1'', ''T1''), (''D1'', ''T2'')]"
  by (simp add: time_slots_def weekly_request_def)

lemma weekly_checks:
  "missing_teachers weekly_request = [] \<and> validation_errors weekly_request = []"
  by (simp add: weekly_request_def group_seminar_def slot_mon_8_def slot_mon_10_def
      availability_map_def availability_dict_def py_dict_def sessions_per_instructor_def
      validation_errors_def missing_teachers_def check_instructor.simps)

lemma weekly_allowed:
  "allowed_slots weekly_request ''Ada'' = [(''D1'', ''T1''), (''D1'', ''T2'')]"
  by (simp add: allowed_slots_def availability_dict_def py_dict_def weekly_request_def
      slot_mon_8_def slot_mon_10_def)

lemma weekly_max_hours: "max_hours_dict weekly_request ''Ada'' = Some 4"
  by (simp add: max_hours_dict_def py_dict_def weekly_request_def)

lemma weekly_groups: "groups weekly_request = [group_seminar]"
  "max_courses_per_slot weekly_request = 2"
  by (simp_all add: weekly_request_def)

lemma weekly_group_fields: "instructor group_seminar = ''Ada''" "courseId group_seminar = ''C1''"
  "group_id group_seminar = ''G1''" "group_type group_seminar = 0"
  by (simp_all add: group_seminar_def)

lemma weekly_satisfies: "satisfies (timetable_model weekly_request) weekly_val"
  by (simp add: satisfies_def timetable_model_def tt_variables_def constraints1_def
      constraints2_def constraints3_def constraints4_def constraints5_def constraints6_def
      exactly_once_def slot_terms_def hour_terms_def hour_weight_def instructors_def
      weekly_groups weekly_group_fields weekly_session_range weekly_time_slots weekly_allowed
      weekly_max_hours x_key_def lin_sum_def weekly_val_def)

lemma weekly_names:
  "name_or_id (day_id_to_name weekly_request) ''D1'' = ''Monday''"
  "name_or_id (time_id_to_name weekly_request) ''T1'' = ''08:00''"
  "name_or_id (time_id_to_name weekly_request) ''T2'' = ''10:00''"
  by (simp_all add: name_or_id_def day_id_to_name_def time_id_to_name_def py_dict_def
      weekly_request_def)

lemma weekly_collect: "collect_schedule weekly_request weekly_val = weekly_schedule"
proof -
  have "collect_schedule weekly_request weekly_val =
      session_entries weekly_request weekly_val group_seminar 0 @
      session_entries weekly_request weekly_val group_seminar 1"
    by (simp add: collect_schedule_def weekly_groups weekly_session_range)
  also have "\<dots> = weekly_schedule"
    by (simp add: session_entries_def schedule_entry_def weekly_time_slots x_key_def
        weekly_val_def weekly_schedule_def weekly_names group_seminar_def)
  finally show ?thesis .
qed

lemma weekly_result:
  "create_schedule (check_solver weekly_val) weekly_request = Inr weekly_schedule"
  using weekly_checks weekly_satisfies weekly_collect
  by (simp add: create_schedule_def check_solver_def has_solution_def)

section \<open>A request with a lecture and a lab, evaluated\<close>

lemma mixed_session_range: "session_range group_lecture = [0]" "session_range group_lab = [0]"
proof -
  have "nat (sessions group_lecture) = Suc 0" "nat (sessions group_lab) = Suc 0"
    by (simp_all add: group_lecture_def group_lab_def)
  then show "session_range group_lecture = [0]" "session_range group_lab = [0]"
    by (simp_all add: session_range_def)
qed

lemma mixed_time_slots: "time_slots mixed_request = [(''D1'', ''T1''), (''D1'', ''T2'')]"
  by (simp add: time_slots_def mixed_request_def)

lemma mixed_checks:
  "missing_teachers mixed_request = [] \<and> validation_errors mixed_request = []"
  by (simp add: mixed_request_def group_lecture_def group_lab_def slot_mon_8_def slot_mon_10_def
      availability_map_def availability_dict_def py_dict_def sessions_per_instructor_def
      validation_errors_def missing_teachers_def check_instructor.simps)

lemma mixed_allowed:
  "allowed_slots mixed_request ''Ada'' = [(''D1'', ''T1''), (''D1'', ''T2'')]"
  by (simp add: allowed_slots_def availability_dict_def py_dict_def mixed_request_def
      slot_mon_8_def slot_mon_10_def)

lemma mixed_max_hours: "max_hours_dict mixed_request ''Ada'' = Some 3"
  by (simp add: max_hours_dict_def py_dict_def mixed_request_def)

lemma mixed_groups: "groups mixed_request = [group_lecture, group_lab]"
  "max_courses_per_slot mixed_request = 1"
  by (simp_all add: mixed_request_def)

lemma mixed_group_fields:
  "instructor group_lecture = ''Ada''" "courseId group_lecture = ''C1''"
  "group_id group_lecture = ''G1''" "group_type group_lecture = 0"
  "instructor group_lab = ''Ada''" "courseId group_lab = ''C1''"
  "group_id group_lab = ''G2''" "group_type group_lab = 1"
  by (simp_all add: group_lecture_def group_lab_def)

lemma mixed_satisfies: "satisfies (timetable_model mixed_request) mixed_val"
  by (simp add: satisfies_def timetable_model_def tt_variables_def constraints1_def
      constraints2_def constraints3_def constraints4_def constraints5_def constraints6_def
      exactly_once_def slot_terms_def hour_terms_def hour_weight_def instructors_def
      mixed_groups mixed_group_fields mixed_session_range mixed_time_slots mixed_allowed
      mixed_max_hours x_key_def lin_sum_def mixed_val_def)

lemma mixed_names:
  "name_or_id (day_id_to_name mixed_request) ''D1'' = ''Monday''"
  "name_or_id (time_id_to_name mixed_request) ''T1'' = ''08:00''"
  "name_or_id (time_id_to_name mixed_request) ''T2'' = ''10:00''"
  by (simp_all add: name_or_id_def day_id_to_name_def time_id_to_name_def py_dict_def
      mixed_request_def)

lemma mixed_collect: "collect_schedule mixed_request mixed_val = mixed_schedule"
proof -
  have "collect_schedule mixed_request mixed_val =
      session_entries mixed_request mixed_val group_lecture 0 @
      session_entries mixed_request mixed_val group_lab 0"
    by (simp add: collect_schedule_def mixed_groups mixed_session_range)
  also have "\<dots> = mixed_schedule"
    by (simp add: session_entries_def schedule_entry_def mixed_time_slots x_key_def
        mixed_val_def mixed_schedule_def mixed_names group_lecture_def group_lab_def)
  finally show ?thesis .
qed

lemma mixed_result:
  "create_schedule (check_solver mixed_val) mixed_request = Inr mixed_schedule"
  using mixed_checks mixed_satisfies mixed_collect
  by (simp add: create_schedule_def check_solver_def has_solution_def)

section \<open>Properties of create\_schedule\<close>

lemma count_one: "distinct xs \<Longrightarrow> a \<in> set xs \<Longrightarrow> length (filter (\<lambda>y. y = a) xs) = 1"
proof (induction xs)
  case Nil
  then show ?case by simp
next
  case (Cons x xs)
  show ?case
  proof (cases "x = a")
    case True
    with Cons.prems have "a \<notin> set xs" by simp
    then have "filter (\<lambda>y. y = a) xs = []" by (auto simp: filter_empty_conv)
    with True show ?thesis by simp
  next
    case False
    with Cons show ?thesis by auto
  qed
qed

lemma group_session_inj: "group_session g s = group_session g' s' \<longleftrightarrow> group_id g = group_id g' \<and> s = s'"
  by (auto simp: group_session_def)

lemma enumeration_distinct:
  "distinct (map group_id gs) \<Longrightarrow>
   distinct (concat (map (\<lambda>g. map (group_session g) (session_range g)) gs))"
proof (induction gs)
  case Nil
  then show ?case by simp
next
  case (Cons g gs)
  have a: "distinct (map (group_session g) (session_range g))"
    by (simp add: distinct_map session_range_def inj_on_def group_session_inj)
  have b: "set (map (group_session g) (session_range g)) \<inter>
      set (concat (map (\<lambda>g. map (group_session g) (session_range g)) gs)) = {}"
  proof (rule ccontr)
    assume "set (map (group_session g) (session_range g)) \<inter>
      set (concat (map (\<lambda>g. map (group_session g) (session_range g)) gs)) \<noteq> {}"
    then obtain x where x: "x \<in> set (map (group_session g) (session_range g))"
      "x \<in> set (concat (map (\<lambda>g. map (group_session g) (session_range g)) gs))" by blast
    from x(1) obtain s where s: "x = group_session g s" by auto
    from x(2) obtain g' s' where g': "g' \<in> set gs" "x = group_session g' s'" by auto
    from s g'(2) have "group_id g = group_id g'" by (simp add: group_session_inj)
    with g'(1) have "group_id g \<in> set (map group_id gs)" by simp
    with Cons.prems show False by simp
  qed
  from Cons a b show ?case by simp
qed

lemma create_schedule_result:
  assumes res: "create_schedule solve req = Inr sched"
  shows "missing_teachers req = [] \<and>
         sched = collect_schedule req (snd (solve (timetable_model req)))"
proof -
  obtain st val where sv: "solve (timetable_model req) = (st, val)"
    by (cases "solve (timetable_model req)")
  from res sv show ?thesis by (auto simp: create_schedule_def split: if_splits)
qed

lemma collect_schedule_member:
  "e \<in> set (collect_schedule req val) \<Longrightarrow>
   \<exists>g \<in> set (groups req). \<exists>s \<in> set (session_range g). \<exists>dt \<in> set (time_slots req).
     e = schedule_entry req g s dt"
  by (auto simp: collect_schedule_def session_entries_def)

lemma time_slots_keys:
  "dt \<in> set (time_slots req) \<Longrightarrow>
   fst dt \<in> dom (day_id_to_name req) \<and> snd dt \<in> dom (time_id_to_name req)"
  by (auto simp: time_slots_def day_id_to_name_def time_id_to_name_def dom_py_dict image_iff)

text \<open>
  Claim C1. When create_schedule returns a schedule (with a solver whose solutions satisfy
  the model), the (GroupId, Session) columns of the schedule are exactly the enumeration of
  the groups in request order, each followed through its session indices 0 .. sessions-1
  (written as Session 1 .. sessions): nothing is left out and nothing is repeated. When
  the group ids of the request are pairwise different, each pair (GroupId, Session)
  therefore occurs in exactly one entry. The model holds, for every group and session
  index, the constraint that the variables of that pair over all time slots sum to 1, and
  the schedule is what the extraction loop emits for the solver's values.
\<close>

theorem every_session_scheduled_once:
  assumes sound: "solver_sound solve" and res: "create_schedule solve req = Inr sched"
  shows "map entry_group_session sched =
           concat (map (\<lambda>g. map (\<lambda>s. (Some (StrV (group_id g)), Some (IntV (int s + 1))))
                              [0 ..< nat (sessions g)]) (groups req)) \<and>
         (distinct (map group_id (groups req)) \<longrightarrow>
            (\<forall>g \<in> set (groups req). \<forall>s \<in> set [0 ..< nat (sessions g)].
               length (filter (\<lambda>e. entry_group_session e =
                 (Some (StrV (group_id g)), Some (IntV (int s + 1)))) sched) = 1)) \<and>
         (\<forall>g \<in> set (groups req). \<forall>s \<in> set [0 ..< nat (sessions g)].
            SumEq (map (\<lambda>dt. (1, (group_id g, s, fst dt, snd dt))) (time_slots req)) 1
              \<in> set (constraints (timetable_model req))) \<and>
         sched = collect_schedule req (snd (solve (timetable_model req)))"
proof -
  let ?val = "snd (solve (timetable_model req))"
  let ?enum = "concat (map (\<lambda>g. map (group_session g) (session_range g)) (groups req))"
  from create_schedule_success [OF sound res] have sat: "satisfies (timetable_model req) ?val"
    and sched: "sched = collect_schedule req ?val" by auto
  have proj: "map entry_group_session sched = ?enum"
    unfolding sched by (rule collect_schedule_projection [OF sat])
  have a: "map entry_group_session sched =
           concat (map (\<lambda>g. map (\<lambda>s. (Some (StrV (group_id g)), Some (IntV (int s + 1))))
                              [0 ..< nat (sessions g)]) (groups req))"
    using proj by (simp add: group_session_def [abs_def] session_range_def)
  have b: "distinct (map group_id (groups req)) \<longrightarrow>
            (\<forall>g \<in> set (groups req). \<forall>s \<in> set [0 ..< nat (sessions g)].
               length (filter (\<lambda>e. entry_group_session e =
                 (Some (StrV (group_id g)), Some (IntV (int s + 1)))) sched) = 1)"
  proof (intro impI ballI)
    fix g s
    assume d: "distinct (map group_id (groups req))" and g: "g \<in> set (groups req)"
      and s: "s \<in> set [0 ..< nat (sessions g)]"
    have "length (filter (\<lambda>e. entry_group_session e = group_session g s) sched) =
        length (filter (\<lambda>y. y = group_session g s) (map entry_group_session sched))"
      by (simp add: filter_map o_def)
    also have "\<dots> = length (filter (\<lambda>y. y = group_session g s) ?enum)"
      by (simp only: proj)
    also have "\<dots> = 1"
    proof (rule count_one [OF enumeration_distinct [OF d]])
      from s have "group_session g s \<in> set (map (group_session g) (session_range g))"
        by (simp add: session_range_def)
      with g show "group_session g s \<in> set ?enum" by auto
    qed
    finally show "length (filter (\<lambda>e. entry_group_session e =
        (Some (StrV (group_id g)), Some (IntV (int s + 1)))) sched) = 1"
      by (simp add: group_session_def)
  qed
  have c: "\<forall>g \<in> set (groups req). \<forall>s \<in> set [0 ..< nat (sessions g)].
            SumEq (map (\<lambda>dt. (1, (group_id g, s, fst dt, snd dt))) (time_slots req)) 1
              \<in> set (constraints (timetable_model req))"
  proof (intro ballI)
    fix g s assume "g \<in> set (groups req)" and "s \<in> set [0 ..< nat (sessions g)]"
    then have "exactly_once req g s \<in> set (constraints (timetable_model req))"
      by (intro exactly_once_member) (simp_all add: session_range_def)
    then show "SumEq (map (\<lambda>dt. (1, (group_id g, s, fst dt, snd dt))) (time_slots req)) 1
              \<in> set (constraints (timetable_model req))"
      unfolding exactly_once_def x_key_def .
  qed
  from a b c sched show ?thesis by blast
qed

text \<open>The theorem at a request of one group with two sessions and two time slots.\<close>

theorem every_session_scheduled_once_witness:
  "solver_sound (check_solver weekly_val) \<and>
   create_schedule (check_solver weekly_val) weekly_request = Inr weekly_schedule \<and>
   distinct (map group_id (groups weekly_request)) \<and>
   map entry_group_session weekly_schedule =
     [(Some (StrV ''G1''), Some (IntV 1)), (Some (StrV ''G1''), Some (IntV 2))] \<and>
   length (filter (\<lambda>e. entry_group_session e = (Some (StrV ''G1''), Some (IntV 2)))
     weekly_schedule) = 1"
proof -
  have s: "solver_sound (check_solver weekly_val)" by (rule check_solver_sound)
  have r: "create_schedule (check_solver weekly_val) weekly_request = Inr weekly_schedule"
    by (rule weekly_result)
  have d: "distinct (map group_id (groups weekly_request))" by (simp add: weekly_groups)
  have m: "group_seminar \<in> set (groups weekly_request)" by (simp add: weekly_groups)
  have i: "1 \<in> set [0 ..< nat (sessions group_seminar)]" by (simp add: group_seminar_def)
  from every_session_scheduled_once [OF s r] have
    e: "map entry_group_session weekly_schedule =
           concat (map (\<lambda>g. map (\<lambda>s. (Some (StrV (group_id g)), Some (IntV (int s + 1))))
                              [0 ..< nat (sessions g)]) (groups weekly_request))"
    and c: "distinct (map group_id (groups weekly_request)) \<longrightarrow>
            (\<forall>g \<in> set (groups weekly_request). \<forall>s \<in> set [0 ..< nat (sessions g)].
               length (filter (\<lambda>e. entry_group_session e =
                 (Some (StrV (group_id g)), Some (IntV (int s + 1)))) weekly_schedule) = 1)"
    by blast+
  from c d m i have "length (filter (\<lambda>e. entry_group_session e =
      (Some (StrV (group_id group_seminar)), Some (IntV (int 1 + 1)))) weekly_schedule) = 1"
    by blast
  then have l: "length (filter (\<lambda>e. entry_group_session e = (Some (StrV ''G1''), Some (IntV 2)))
     weekly_schedule) = 1" by (simp add: group_seminar_def)
  have "nat (sessions group_seminar) = Suc (Suc 0)" by (simp add: group_seminar_def)
  with e have p: "map entry_group_session weekly_schedule =
     [(Some (StrV ''G1''), Some (IntV 1)), (Some (StrV ''G1''), Some (IntV 2))]"
    by (simp add: weekly_groups weekly_group_fields)
  from s r d p l show ?thesis by blast
qed

text \<open>
  Claim C2. In a returned schedule, for every instructor (the field instructor of a group)
  the entries of that instructor, counted 2 for an entry of Type 0 and 1 for any other
  entry, sum to at most the instructor's maxHours, which is the maxHours of the last
  availability record of that teacher (the one \<open>max_hours_dict\<close> keeps). The model
  holds the constraint itself: the sum, over the instructor's groups, their session indices
  and all time slots, of the variable weighted 2 for a group of type 0 and 1 otherwise, is
  at most that maxHours.
\<close>

theorem instructor_hours_within_budget:
  assumes sound: "solver_sound solve" and res: "create_schedule solve req = Inr sched"
  shows "\<forall>inst \<in> instructor ` set (groups req).
           filter (\<lambda>a. teacher a = inst) (availability req) \<noteq> [] \<and>
           sum_list (map (\<lambda>e. if map_of e ''Type'' = Some (IntV 0) then 2 else 1)
             (filter (\<lambda>e. map_of e ''Instructor'' = Some (StrV inst)) sched))
             \<le> maxHours (last (filter (\<lambda>a. teacher a = inst) (availability req))) \<and>
           SumLe (concat (map (\<lambda>g. concat (map (\<lambda>s.
                     map (\<lambda>dt. (if group_type g = 0 then 2 else 1,
                                 (group_id g, s, fst dt, snd dt))) (time_slots req))
                     [0 ..< nat (sessions g)]))
                   (filter (\<lambda>g. instructor g = inst) (groups req))))
                 (maxHours (last (filter (\<lambda>a. teacher a = inst) (availability req))))
             \<in> set (constraints (timetable_model req))"
proof
  fix inst assume inst: "inst \<in> instructor ` set (groups req)"
  let ?val = "snd (solve (timetable_model req))"
  let ?recs = "filter (\<lambda>a. teacher a = inst) (availability req)"
  from create_schedule_success [OF sound res] have none: "missing_teachers req = []"
    and sat: "satisfies (timetable_model req) ?val"
    and sched: "sched = collect_schedule req ?val" by auto
  from none have "set (missing_teachers req) = {}" by simp
  with inst have "inst \<in> teacher ` set (availability req)"
    unfolding missing_teachers_set by auto
  then have ne: "?recs \<noteq> []" by (auto simp: filter_empty_conv)
  have mh: "max_hours_dict req inst = Some (maxHours (last ?recs))"
    unfolding max_hours_dict_def by (rule py_dict_last [OF ne])
  from inst have i: "inst \<in> set (instructors req)" by (simp add: instructors_set)
  have c: "SumLe (hour_terms req inst) (maxHours (last ?recs))
      \<in> set (constraints (timetable_model req))"
    by (rule hour_budget_member [OF i mh])
  from sat have "\<forall>c \<in> set (constraints (timetable_model req)). holds ?val c"
    by (simp add: satisfies_def list_all_iff)
  with c have "holds ?val (SumLe (hour_terms req inst) (maxHours (last ?recs)))" by blast
  then have "lin_sum ?val (hour_terms req inst) \<le> maxHours (last ?recs)" by simp
  then have "sum_list (map hour_cost
      (filter (\<lambda>e. entry_instructor e = Some (StrV inst)) sched)) \<le> maxHours (last ?recs)"
    unfolding sched instructor_hours [OF sat] .
  then have a: "sum_list (map (\<lambda>e. if map_of e ''Type'' = Some (IntV 0) then 2 else 1)
             (filter (\<lambda>e. map_of e ''Instructor'' = Some (StrV inst)) sched))
             \<le> maxHours (last ?recs)"
    by (simp add: hour_cost_def [abs_def] entry_instructor_def [abs_def])
  have b: "SumLe (concat (map (\<lambda>g. concat (map (\<lambda>s.
                     map (\<lambda>dt. (if group_type g = 0 then 2 else 1,
                                 (group_id g, s, fst dt, snd dt))) (time_slots req))
                     [0 ..< nat (sessions g)]))
                   (filter (\<lambda>g. instructor g = inst) (groups req))))
                 (maxHours (last ?recs))
             \<in> set (constraints (timetable_model req))"
    using c by (simp add: hour_terms_def hour_weight_def x_key_def [abs_def] session_range_def)
  from ne a b show "?recs \<noteq> [] \<and>
           sum_list (map (\<lambda>e. if map_of e ''Type'' = Some (IntV 0) then 2 else 1)
             (filter (\<lambda>e. map_of e ''Instructor'' = Some (StrV inst)) sched))
             \<le> maxHours (last ?recs) \<and>
           SumLe (concat (map (\<lambda>g. concat (map (\<lambda>s.
                     map (\<lambda>dt. (if group_type g = 0 then 2 else 1,
                                 (group_id g, s, fst dt, snd dt))) (time_slots req))
                     [0 ..< nat (sessions g)]))
                   (filter (\<lambda>g. instructor g = inst) (groups req))))
                 (maxHours (last ?recs))
             \<in> set (constraints (timetable_model req))" by blast
qed

text \<open>
  The theorem at a request where Ada teaches one session of a lecture (type 0) and one of a
  lab (type 1) with maxHours 3: the cost is 2 + 1 = 3.
\<close>

theorem instructor_hours_within_budget_witness:
  "solver_sound (check_solver mixed_val) \<and>
   create_schedule (check_solver mixed_val) mixed_request = Inr mixed_schedule \<and>
   ''Ada'' \<in> instructor ` set (groups mixed_request) \<and>
   maxHours (last (filter (\<lambda>a. teacher a = ''Ada'') (availability mixed_request))) = 3 \<and>
   sum_list (map (\<lambda>e. if map_of e ''Type'' = Some (IntV 0) then 2 else 1)
     (filter (\<lambda>e. map_of e ''Instructor'' = Some (StrV ''Ada'')) mixed_schedule)) = (3::int) \<and>
   SumLe [(2, (''G1'', 0, ''D1'', ''T1'')), (2, (''G1'', 0, ''D1'', ''T2'')),
          (1, (''G2'', 0, ''D1'', ''T1'')), (1, (''G2'', 0, ''D1'', ''T2''))] 3
     \<in> set (constraints (timetable_model mixed_request))"
proof -
  have s: "solver_sound (check_solver mixed_val)" by (rule check_solver_sound)
  have r: "create_schedule (check_solver mixed_val) mixed_request = Inr mixed_schedule"
    by (rule mixed_result)
  have m: "''Ada'' \<in> instructor ` set (groups mixed_request)"
    by (simp add: mixed_groups mixed_group_fields)
  have h: "maxHours (last (filter (\<lambda>a. teacher a = ''Ada'') (availability mixed_request))) = 3"
    by (simp add: mixed_request_def)
  have v: "sum_list (map (\<lambda>e. if map_of e ''Type'' = Some (IntV 0) then 2 else 1)
     (filter (\<lambda>e. map_of e ''Instructor'' = Some (StrV ''Ada'')) mixed_schedule)) = (3::int)"
    by (simp add: mixed_schedule_def)
  have one: "nat (sessions group_lecture) = Suc 0" "nat (sessions group_lab) = Suc 0"
    by (simp_all add: group_lecture_def group_lab_def)
  from instructor_hours_within_budget [OF s r, THEN bspec, OF m]
  have "SumLe (concat (map (\<lambda>g. concat (map (\<lambda>s.
                     map (\<lambda>dt. (if group_type g = 0 then 2 else 1,
                                 (group_id g, s, fst dt, snd dt))) (time_slots mixed_request))
                     [0 ..< nat (sessions g)]))
                   (filter (\<lambda>g. instructor g = ''Ada'') (groups mixed_request))))
                 (maxHours (last (filter (\<lambda>a. teacher a = ''Ada'') (availability mixed_request))))
             \<in> set (constraints (timetable_model mixed_request))" by blast
  then have c: "SumLe [(2, (''G1'', 0, ''D1'', ''T1'')), (2, (''G1'', 0, ''D1'', ''T2'')),
          (1, (''G2'', 0, ''D1'', ''T1'')), (1, (''G2'', 0, ''D1'', ''T2''))] 3
     \<in> set (constraints (timetable_model mixed_request))"
    unfolding h by (simp add: mixed_groups mixed_group_fields mixed_time_slots one)
  from s r m h v c show ?thesis by blast
qed

text \<open>
  Claim C10. The entry which the extraction builds for a group, a session index and any
  slot (d, t) has Day equal to the name that \<open>day_id_to_name\<close> holds for d and, when d is
  no key of that map, equal to d itself; likewise Time for t and \<open>time_id_to_name\<close>. The
  two maps are the dicts of the request's days and time_intervals (a later item with the
  same Id overrides an earlier one). No branch of the lookup fails. In a returned schedule
  every entry is built for a slot of the calendar, whose ids are keys of the maps, so that
  there Day and Time are always names from the maps.
\<close>

theorem day_and_time_names_resolved:
  assumes res: "create_schedule solve req = Inr sched"
  shows "(\<forall>e \<in> set sched. \<exists>g s d t. e = schedule_entry req g s (d, t) \<and>
            (\<exists>n m. day_id_to_name req d = Some n \<and> time_id_to_name req t = Some m \<and>
               map_of e ''DayId'' = Some (StrV d) \<and> map_of e ''Day'' = Some (StrV n) \<and>
               map_of e ''TimeId'' = Some (StrV t) \<and> map_of e ''Time'' = Some (StrV m))) \<and>
         (\<forall>g s d t.
            map_of (schedule_entry req g s (d, t)) ''DayId'' = Some (StrV d) \<and>
            map_of (schedule_entry req g s (d, t)) ''TimeId'' = Some (StrV t) \<and>
            map_of (schedule_entry req g s (d, t)) ''Day'' =
              Some (StrV (case day_id_to_name req d of None \<Rightarrow> d | Some n \<Rightarrow> n)) \<and>
            map_of (schedule_entry req g s (d, t)) ''Time'' =
              Some (StrV (case time_id_to_name req t of None \<Rightarrow> t | Some n \<Rightarrow> n))) \<and>
         day_id_to_name req = map_of (rev (map (\<lambda>d. (day_Id d, day_Name d)) (days req))) \<and>
         time_id_to_name req =
           map_of (rev (map (\<lambda>t. (time_Id t, time_Name t)) (time_intervals req)))"
proof -
  from create_schedule_result [OF res]
  have sched: "sched = collect_schedule req (snd (solve (timetable_model req)))" by simp
  have b: "\<forall>g s d t.
            map_of (schedule_entry req g s (d, t)) ''DayId'' = Some (StrV d) \<and>
            map_of (schedule_entry req g s (d, t)) ''TimeId'' = Some (StrV t) \<and>
            map_of (schedule_entry req g s (d, t)) ''Day'' =
              Some (StrV (case day_id_to_name req d of None \<Rightarrow> d | Some n \<Rightarrow> n)) \<and>
            map_of (schedule_entry req g s (d, t)) ''Time'' =
              Some (StrV (case time_id_to_name req t of None \<Rightarrow> t | Some n \<Rightarrow> n))"
    by (simp add: schedule_entry_def name_or_id_def)
  have a: "\<forall>e \<in> set sched. \<exists>g s d t. e = schedule_entry req g s (d, t) \<and>
            (\<exists>n m. day_id_to_name req d = Some n \<and> time_id_to_name req t = Some m \<and>
               map_of e ''DayId'' = Some (StrV d) \<and> map_of e ''Day'' = Some (StrV n) \<and>
               map_of e ''TimeId'' = Some (StrV t) \<and> map_of e ''Time'' = Some (StrV m))"
  proof
    fix e assume "e \<in> set sched"
    with sched obtain g s dt where dt: "dt \<in> set (time_slots req)"
      and e: "e = schedule_entry req g s dt"
      using collect_schedule_member by blast
    obtain d t where p: "dt = (d, t)" by (cases dt)
    from time_slots_keys [OF dt] p obtain n m where
      nm: "day_id_to_name req d = Some n" "time_id_to_name req t = Some m" by auto
    from b nm have "map_of (schedule_entry req g s (d, t)) ''DayId'' = Some (StrV d) \<and>
        map_of (schedule_entry req g s (d, t)) ''Day'' = Some (StrV n) \<and>
        map_of (schedule_entry req g s (d, t)) ''TimeId'' = Some (StrV t) \<and>
        map_of (schedule_entry req g s (d, t)) ''Time'' = Some (StrV m)"
      by (simp add: schedule_entry_def name_or_id_def)
    with e p nm show "\<exists>g s d t. e = schedule_entry req g s (d, t) \<and>
            (\<exists>n m. day_id_to_name req d = Some n \<and> time_id_to_name req t = Some m \<and>
               map_of e ''DayId'' = Some (StrV d) \<and> map_of e ''Day'' = Some (StrV n) \<and>
               map_of e ''TimeId'' = Some (StrV t) \<and> map_of e ''Time'' = Some (StrV m))"
      by blast
  qed
  show ?thesis using a b by (simp add: day_id_to_name_def time_id_to_name_def py_dict_map_of)
qed

text \<open>
  The theorem at the weekly request: D1 is resolved to Monday and T2 to 10:00, and an entry
  built for the ids D9 and T9, which the request does not list, carries D9 and T9.
\<close>

theorem day_and_time_names_resolved_witness:
  "create_schedule (check_solver weekly_val) weekly_request = Inr weekly_schedule \<and>
   day_id_to_name weekly_request ''D1'' = Some ''Monday'' \<and>
   time_id_to_name weekly_request ''T2'' = Some ''10:00'' \<and>
   map (\<lambda>e. (map_of e ''DayId'', map_of e ''Day'', map_of e ''TimeId'', map_of e ''Time''))
     weekly_schedule =
     [(Some (StrV ''D1''), Some (StrV ''Monday''), Some (StrV ''T1''), Some (StrV ''08:00'')),
      (Some (StrV ''D1''), Some (StrV ''Monday''), Some (StrV ''T2''), Some (StrV ''10:00''))] \<and>
   day_id_to_name weekly_request ''D9'' = None \<and>
   time_id_to_name weekly_request ''T9'' = None \<and>
   map_of (schedule_entry weekly_request group_seminar 0 (''D9'', ''T9'')) ''Day'' =
     Some (StrV ''D9'') \<and>
   map_of (schedule_entry weekly_request group_seminar 0 (''D9'', ''T9'')) ''Time'' =
     Some (StrV ''T9'') \<and>
   map_of (schedule_entry weekly_request group_seminar 0 (''D9'', ''T2'')) ''Time'' =
     Some (StrV ''10:00'')"
proof -
  have r: "create_schedule (check_solver weekly_val) weekly_request = Inr weekly_schedule"
    by (rule weekly_result)
  note t = day_and_time_names_resolved [OF r]
  from t have maps:
    "day_id_to_name weekly_request =
       map_of (rev (map (\<lambda>d. (day_Id d, day_Name d)) (days weekly_request)))"
    "time_id_to_name weekly_request =
       map_of (rev (map (\<lambda>t. (time_Id t, time_Name t)) (time_intervals weekly_request)))"
    by blast+
  then have n: "day_id_to_name weekly_request ''D1'' = Some ''Monday''"
    "time_id_to_name weekly_request ''T2'' = Some ''10:00''"
    "day_id_to_name weekly_request ''D9'' = None"
    "time_id_to_name weekly_request ''T9'' = None"
    by (simp_all add: weekly_request_def)
  from t have
    "map_of (schedule_entry weekly_request group_seminar 0 (''D9'', ''T9'')) ''Day'' =
       Some (StrV (case day_id_to_name weekly_request ''D9'' of None \<Rightarrow> ''D9'' | Some n \<Rightarrow> n))"
    "map_of (schedule_entry weekly_request group_seminar 0 (''D9'', ''T9'')) ''Time'' =
       Some (StrV (case time_id_to_name weekly_request ''T9'' of None \<Rightarrow> ''T9'' | Some n \<Rightarrow> n))"
    "map_of (schedule_entry weekly_request group_seminar 0 (''D9'', ''T2'')) ''Time'' =
       Some (StrV (case time_id_to_name weekly_request ''T2'' of None \<Rightarrow> ''T2'' | Some n \<Rightarrow> n))"
    by blast+
  with n have f:
    "map_of (schedule_entry weekly_request group_seminar 0 (''D9'', ''T9'')) ''Day'' =
       Some (StrV ''D9'')"
    "map_of (schedule_entry weekly_request group_seminar 0 (''D9'', ''T9'')) ''Time'' =
       Some (StrV ''T9'')"
    "map_of (schedule_entry weekly_request group_seminar 0 (''D9'', ''T2'')) ''Time'' =
       Some (StrV ''10:00'')"
    by simp_all
  have m: "map (\<lambda>e. (map_of e ''DayId'', map_of e ''Day'', map_of e ''TimeId'', map_of e ''Time''))
     weekly_schedule =
     [(Some (StrV ''D1''), Some (StrV ''Monday''), Some (StrV ''T1''), Some (StrV ''08:00'')),
      (Some (StrV ''D1''), Some (StrV ''Monday''), Some (StrV ''T2''), Some (StrV ''10:00''))]"
    by (simp add: weekly_schedule_def)
  from r n m f show ?thesis by simp
qed

end
